theory Spec2Isabelle
  imports Complex_Main
begin

section \<open>JavaScript text\<close>

text \<open>
  The program of \<^verbatim>\<open>src/App.tsx\<close> works on JavaScript strings.  A string is modelled
  as a \<^typ>\<open>string\<close> whose characters are the code units \<open>0x00 .. 0xFF\<close> (the Latin-1
  range, which holds every literal of the program: \<open>0xF3\<close> is the letter o with an acute
  accent).  Code units above \<open>0xFF\<close> are outside the model.
\<close>

definition isWhiteSpace :: "char \<Rightarrow> bool" where
  \<comment> \<open>the characters of \<^verbatim>\<open>\s\<close> and of \<^verbatim>\<open>String.prototype.trim\<close> in this range:
      TAB, LF, VT, FF, CR, SPACE and NBSP\<close>
  "isWhiteSpace c = (c \<in> set [CHR 0x09, CHR 0x0A, CHR 0x0B, CHR 0x0C, CHR 0x0D, CHR 0x20, CHR 0xA0])"

definition trimStart :: "string \<Rightarrow> string" where
  "trimStart s = dropWhile isWhiteSpace s"

definition trimEnd :: "string \<Rightarrow> string" where
  "trimEnd s = rev (dropWhile isWhiteSpace (rev s))"

definition trim :: "string \<Rightarrow> string" where
  "trim s = trimEnd (trimStart s)"

fun startsWith :: "string \<Rightarrow> string \<Rightarrow> bool" where
  \<comment> \<open>\<open>startsWith p s\<close>: the text \<open>s\<close> begins with \<open>p\<close>\<close>
  "startsWith [] s = True"
| "startsWith (p # ps) [] = False"
| "startsWith (p # ps) (c # cs) = (p = c \<and> startsWith ps cs)"

fun join :: "string \<Rightarrow> string list \<Rightarrow> string" where
  \<comment> \<open>\<^verbatim>\<open>Array.prototype.join\<close> on an array of strings\<close>
  "join sep [] = []"
| "join sep [x] = x"
| "join sep (x # y # ys) = x @ sep @ join sep (y # ys)"

definition toLowerChar :: "char \<Rightarrow> char" where
  \<comment> \<open>\<^verbatim>\<open>toLowerCase\<close> on one code unit: A-Z, and the Latin-1 capitals \<open>0xC0 .. 0xDE\<close>
      but the multiplication sign \<open>0xD7\<close>\<close>
  "toLowerChar c =
     (let n = of_char c :: nat in
      if (0x41 \<le> n \<and> n \<le> 0x5A) \<or> (0xC0 \<le> n \<and> n \<le> 0xDE \<and> n \<noteq> 0xD7)
      then char_of (n + 0x20) else c)"

definition toLowerCase :: "string \<Rightarrow> string" where
  "toLowerCase s = map toLowerChar s"

definition isDigit :: "char \<Rightarrow> bool" where
  "isDigit c = (let n = of_char c :: nat in 0x30 \<le> n \<and> n \<le> 0x39)"

definition digitChar :: "nat \<Rightarrow> char" where
  "digitChar d = char_of (0x30 + d mod 10)"

definition digitVal :: "char \<Rightarrow> nat" where
  "digitVal c = of_char c - 0x30"

function natToString :: "nat \<Rightarrow> string" where
  \<comment> \<open>decimal digits, most significant first\<close>
  "natToString n =
     (if n < 10 then [digitChar n] else natToString (n div 10) @ [digitChar (n mod 10)])"
  by pat_completeness auto
termination
  by (relation "measure id") auto

declare natToString.simps [simp del]

definition intToString :: "int \<Rightarrow> string" where
  \<comment> \<open>\<^verbatim>\<open>String(n)\<close> of an integer\<close>
  "intToString i = (if i < 0 then CHR ''-'' # natToString (nat (- i)) else natToString (nat i))"

fun digitsToInt :: "int \<Rightarrow> string \<Rightarrow> int" where
  \<comment> \<open>the number written by decimal digits\<close>
  "digitsToInt acc [] = acc"
| "digitsToInt acc (c # cs) = digitsToInt (acc * 10 + int (digitVal c)) cs"

section \<open>JSON values\<close>

subsection \<open>Numbers\<close>

text \<open>
  A number of a JSON text is a finite decimal; the lexer keeps it as \<open>Dec m e\<close>, the
  decimal \<open>m * 10 ^ e\<close>.  \<^verbatim>\<open>JSON.parse\<close> returns the Number value of the literal: the
  double nearest to the decimal, the one with the even significand when two doubles are
  as near, and an infinity beyond the range of the doubles.  Every function that reads a
  number reads this double, \<open>numValue\<close>.  A finite double is kept as the rational it
  is; the two zeros are one value here, since \<^verbatim>\<open>String\<close>, \<^verbatim>\<open>Boolean\<close>, \<^verbatim>\<open>JSON.stringify\<close>,
  \<^verbatim>\<open>Math.max\<close> with zero and the comparisons do not tell them apart.
\<close>

datatype jsnum = Dec int int

datatype double = Finite rat | PlusInfinity | MinusInfinity

function bitLength :: "int \<Rightarrow> int" where
  \<comment> \<open>the number of binary digits of a positive integer\<close>
  "bitLength n = (if n \<le> 0 then 0 else 1 + bitLength (n div 2))"
  by pat_completeness auto
termination
  by (relation "measure nat") auto

declare bitLength.simps [simp del]

function decimalLength :: "int \<Rightarrow> int" where
  \<comment> \<open>the number of decimal digits of a positive integer\<close>
  "decimalLength n = (if n \<le> 0 then 0 else 1 + decimalLength (n div 10))"
  by pat_completeness auto
termination
  by (relation "measure nat") auto

declare decimalLength.simps [simp del]

function powInt :: "int \<Rightarrow> int \<Rightarrow> int" where
  \<comment> \<open>\<open>b\<close> to the power \<open>e\<close>, for \<open>e\<close> not negative\<close>
  "powInt b e =
     (if e \<le> 0 then 1
      else if even e then (let h = powInt b (e div 2) in h * h)
      else b * powInt b (e - 1))"
  by pat_completeness auto
termination
  by (relation "measure (\<lambda>(b, e). nat e)") auto

declare powInt.simps [simp del]

definition scale :: "int \<Rightarrow> int \<Rightarrow> rat" where
  \<comment> \<open>\<open>b\<close> to the power \<open>e\<close>, for every integer \<open>e\<close>\<close>
  "scale b e = (if 0 \<le> e then of_int (powInt b e) else 1 / of_int (powInt b (- e)))"

definition decValue :: "jsnum \<Rightarrow> rat" where
  \<comment> \<open>the decimal that the literal writes\<close>
  "decValue n = (case n of Dec m e \<Rightarrow> of_int m * scale 10 e)"

definition floorLog :: "int \<Rightarrow> (int \<Rightarrow> int) \<Rightarrow> rat \<Rightarrow> int" where
  \<comment> \<open>the integer \<open>d\<close> with \<open>b ^ d \<le> q < b ^ (d + 1)\<close> for a positive \<open>q\<close>; \<open>len\<close> counts the
      digits to the base \<open>b\<close>\<close>
  "floorLog b len q =
     (let d = len (fst (quotient_of q)) - len (snd (quotient_of q))
      in if scale b d \<le> q then d else d - 1)"

definition roundHalfEven :: "rat \<Rightarrow> int" where
  \<comment> \<open>the nearest integer, the even one of two that are as near\<close>
  "roundHalfEven q =
     (let f = \<lfloor>q\<rfloor>; r = q - of_int f
      in if r < 1 / 2 then f else if 1 / 2 < r then f + 1 else if even f then f else f + 1)"

definition nearestDouble :: "rat \<Rightarrow> double" where
  \<comment> \<open>the double of a positive number: 53 binary digits, the exponent of the leading one
      not below \<open>-1022\<close> (the subnormal doubles are the multiples of \<open>2 ^ -1074\<close>), an
      infinity when the rounded value reaches \<open>2 ^ 1024\<close>\<close>
  "nearestDouble q =
     (let ex = max (floorLog 2 bitLength q) (- 1022);
          ulp = scale 2 (ex - 52);
          r = of_int (roundHalfEven (q / ulp)) * ulp
      in if scale 2 1024 \<le> r then PlusInfinity else Finite r)"

definition numValue :: "jsnum \<Rightarrow> double" where
  \<comment> \<open>the Number value of a literal\<close>
  "numValue n =
     (let q = decValue n
      in if q = 0 then Finite 0
         else if 0 < q then nearestDouble q
         else (case nearestDouble (- q) of Finite r \<Rightarrow> Finite (- r) | _ \<Rightarrow> MinusInfinity))"

subsection \<open>Values\<close>

datatype json =
    JNull
  | JBool bool
  | JNumber jsnum
  | JString string
  | JArray "json list"
  | JObject "(string \<times> json) list"

text \<open>
  An object is the list of its properties in enumeration order, every key once:
  array-index keys first, in ascending order, then the other keys in the order they
  were created (\<^verbatim>\<open>OrdinaryOwnPropertyKeys\<close>).  A property read \<^verbatim>\<open>o.k\<close> is
  \<open>js_get\<close>; \<open>None\<close> is \<^verbatim>\<open>undefined\<close>.
\<close>

definition isArrayIndex :: "string \<Rightarrow> bool" where
  "isArrayIndex k =
     (k \<noteq> [] \<and> list_all isDigit k \<and> (k = ''0'' \<or> hd k \<noteq> CHR ''0'') \<and>
      length k \<le> 10 \<and> digitsToInt 0 k < 4294967295)"

fun updateKey :: "string \<Rightarrow> 'v \<Rightarrow> (string \<times> 'v) list \<Rightarrow> (string \<times> 'v) list" where
  \<comment> \<open>assignment to a key: in place when the key exists, at the end otherwise\<close>
  "updateKey k v [] = [(k, v)]"
| "updateKey k v ((k', v') # ms) = (if k' = k then (k, v) # ms else (k', v') # updateKey k v ms)"

fun insertIndexKey :: "string \<Rightarrow> 'v \<Rightarrow> (string \<times> 'v) list \<Rightarrow> (string \<times> 'v) list" where
  \<comment> \<open>a new array-index key goes before the first key that is no smaller array index\<close>
  "insertIndexKey k v [] = [(k, v)]"
| "insertIndexKey k v ((k', v') # ms) =
     (if isArrayIndex k' \<and> digitsToInt 0 k' < digitsToInt 0 k
      then (k', v') # insertIndexKey k v ms
      else (k, v) # (k', v') # ms)"

definition js_put :: "string \<Rightarrow> 'v \<Rightarrow> (string \<times> 'v) list \<Rightarrow> (string \<times> 'v) list" where
  \<comment> \<open>\<^verbatim>\<open>o[k] = v\<close>\<close>
  "js_put k v ms =
     (if isArrayIndex k \<and> k \<notin> set (map fst ms) then insertIndexKey k v ms
      else updateKey k v ms)"

fun js_get :: "json \<Rightarrow> string \<Rightarrow> json option" where
  \<comment> \<open>\<^verbatim>\<open>v.k\<close> for the keys this program reads: none of them is a property of
      \<^verbatim>\<open>Array.prototype\<close>, \<^verbatim>\<open>Object.prototype\<close> or of a primitive's wrapper on the
      paths that read it, so only an object's own properties answer\<close>
  "js_get (JObject ms) k = map_of ms k"
| "js_get _ k = None"

fun truthy :: "json \<Rightarrow> bool" where
  \<comment> \<open>\<^verbatim>\<open>Boolean(v)\<close>; a number is falsy when its double is zero (\<^verbatim>\<open>JSON.parse\<close> gives no
      \<^verbatim>\<open>NaN\<close>)\<close>
  "truthy JNull = False"
| "truthy (JBool b) = b"
| "truthy (JNumber n) = (numValue n \<noteq> Finite 0)"
| "truthy (JString s) = (s \<noteq> [])"
| "truthy (JArray xs) = True"
| "truthy (JObject ms) = True"

definition nullish :: "json option \<Rightarrow> bool" where
  \<comment> \<open>\<^verbatim>\<open>undefined\<close> or \<^verbatim>\<open>null\<close>\<close>
  "nullish v = (v = None \<or> v = Some JNull)"

definition orElse :: "json option \<Rightarrow> json option \<Rightarrow> json option" where
  \<comment> \<open>the operator \<^verbatim>\<open>a ?? b\<close>\<close>
  "orElse a b = (if nullish a then b else a)"

subsection \<open>The lexer of \<^verbatim>\<open>JSON.parse\<close>\<close>

datatype token =
    TLBrace | TRBrace | TLBracket | TRBracket | TColon | TComma
  | TString string | TNumber jsnum | TTrue | TFalse | TNull

definition isJsonWs :: "char \<Rightarrow> bool" where
  "isJsonWs c = (c \<in> set [CHR 0x09, CHR 0x0A, CHR 0x0D, CHR 0x20])"

definition hexVal :: "char \<Rightarrow> nat option" where
  "hexVal c =
     (let n = of_char c :: nat in
      if 0x30 \<le> n \<and> n \<le> 0x39 then Some (n - 0x30)
      else if 0x41 \<le> n \<and> n \<le> 0x46 then Some (n - 0x37)
      else if 0x61 \<le> n \<and> n \<le> 0x66 then Some (n - 0x57)
      else None)"

definition unicodeEscape :: "char \<Rightarrow> char \<Rightarrow> char \<Rightarrow> char \<Rightarrow> char option" where
  \<comment> \<open>the code unit of \<^verbatim>\<open>\uXXXX\<close>; a code unit above \<open>0xFF\<close> is outside the model, and
      \<open>None\<close> stands for it as for an escape that is not well formed\<close>
  "unicodeEscape a b c d =
     (case (hexVal a, hexVal b, hexVal c, hexVal d) of
        (Some x, Some y, Some z, Some w) \<Rightarrow>
          if x = 0 \<and> y = 0 then Some (char_of (16 * z + w)) else None
      | _ \<Rightarrow> None)"

definition simpleEscape :: "char \<Rightarrow> char option" where
  "simpleEscape e =
     (if e = CHR 0x22 then Some (CHR 0x22)
      else if e = CHR 0x5C then Some (CHR 0x5C)
      else if e = CHR ''/'' then Some (CHR ''/'')
      else if e = CHR ''b'' then Some (CHR 0x08)
      else if e = CHR ''f'' then Some (CHR 0x0C)
      else if e = CHR ''n'' then Some (CHR 0x0A)
      else if e = CHR ''r'' then Some (CHR 0x0D)
      else if e = CHR ''t'' then Some (CHR 0x09)
      else None)"

definition consChar :: "char \<Rightarrow> (string \<times> string) option \<Rightarrow> (string \<times> string) option" where
  "consChar c r = (case r of None \<Rightarrow> None | Some (s, rest) \<Rightarrow> Some (c # s, rest))"

definition lexEscape :: "string \<Rightarrow> (char \<times> string) option" where
  \<comment> \<open>the text after a backslash: the escaped character and the text after the escape\<close>
  "lexEscape cs =
     (case cs of
        [] \<Rightarrow> None
      | e # es \<Rightarrow>
          if e = CHR ''u'' then
            (case es of
               a # b # x # d # rest \<Rightarrow> map_option (\<lambda>u. (u, rest)) (unicodeEscape a b x d)
             | _ \<Rightarrow> None)
          else map_option (\<lambda>u. (u, es)) (simpleEscape e))"

lemma lexEscape_shorter: "lexEscape cs = Some (u, rest) \<Longrightarrow> length rest < length cs"
  unfolding lexEscape_def
  by (cases cs) (auto split: if_splits list.splits)

function lexString :: "string \<Rightarrow> (string \<times> string) option" where
  \<comment> \<open>the text after an opening quote: the string's value and the text after the
      closing quote\<close>
  "lexString [] = None"
| "lexString (c # cs) =
     (if c = CHR 0x22 then Some ([], cs)
      else if c = CHR 0x5C then
        (case lexEscape cs of
           None \<Rightarrow> None
         | Some (u, rest) \<Rightarrow> consChar u (lexString rest))
      else if (of_char c :: nat) < 0x20 then None
      else consChar c (lexString cs))"
  by pat_completeness auto
termination
  by (relation "measure length") (auto dest: lexEscape_shorter)

definition lexExponent :: "string \<Rightarrow> (int \<times> string) option" where
  \<comment> \<open>the optional exponent part of a number\<close>
  "lexExponent s =
     (case s of
        [] \<Rightarrow> Some (0, s)
      | c # cs \<Rightarrow>
          if c = CHR ''e'' \<or> c = CHR ''E'' then
            (let neg = (cs \<noteq> [] \<and> hd cs = CHR ''-'');
                 ds = (if cs \<noteq> [] \<and> (hd cs = CHR ''-'' \<or> hd cs = CHR ''+'') then tl cs else cs);
                 ep = takeWhile isDigit ds
             in if ep = [] then None
                else Some ((if neg then - digitsToInt 0 ep else digitsToInt 0 ep),
                           dropWhile isDigit ds))
          else Some (0, s))"

definition lexFraction :: "string \<Rightarrow> (string \<times> string) option" where
  \<comment> \<open>the optional fraction part of a number: its digits\<close>
  "lexFraction s =
     (case s of
        [] \<Rightarrow> Some ([], s)
      | c # cs \<Rightarrow>
          if c = CHR ''.'' then
            (let fp = takeWhile isDigit cs
             in if fp = [] then None else Some (fp, dropWhile isDigit cs))
          else Some ([], s))"

definition lexNumber :: "string \<Rightarrow> (jsnum \<times> string) option" where
  "lexNumber s =
     (let neg = (s \<noteq> [] \<and> hd s = CHR ''-'');
          s1 = (if neg then tl s else s);
          ip = takeWhile isDigit s1
      in if ip = [] \<or> (length ip > 1 \<and> hd ip = CHR ''0'') then None
         else
           (case lexFraction (dropWhile isDigit s1) of
              None \<Rightarrow> None
            | Some (fp, s2) \<Rightarrow>
                (case lexExponent s2 of
                   None \<Rightarrow> None
                 | Some (ex, s3) \<Rightarrow>
                     (let m = digitsToInt 0 (ip @ fp)
                      in Some (Dec (if neg then - m else m) (ex - int (length fp)), s3)))))"

lemma consChar_Some: "consChar c r = Some (v, rest) \<Longrightarrow> \<exists>w. r = Some (w, rest) \<and> v = c # w"
  by (cases r) (auto simp: consChar_def)

lemma lexFraction_shorter: "lexFraction s = Some (fp, rest) \<Longrightarrow> length rest \<le> length s"
  by (auto simp: lexFraction_def Let_def le_SucI length_dropWhile_le split: list.splits if_splits)

lemma lexExponent_shorter:
  assumes "lexExponent s = Some (ex, rest)"
  shows "length rest \<le> length s"
proof (cases s)
  case Nil
  with assms show ?thesis by (simp add: lexExponent_def)
next
  case (Cons c cs)
  have a: "length (dropWhile isDigit cs) \<le> Suc (length cs)"
    using length_dropWhile_le [of isDigit cs] by simp
  have b: "length (dropWhile isDigit (tl cs)) \<le> Suc (length cs)"
    using length_dropWhile_le [of isDigit "tl cs"] by simp
  from assms Cons have
    "rest = dropWhile isDigit cs \<or> rest = dropWhile isDigit (tl cs) \<or> rest = s"
    by (simp add: lexExponent_def Let_def split: if_splits)
  with a b Cons show ?thesis by auto
qed

lemma lexNumber_shorter: "lexNumber s = Some (n, rest) \<Longrightarrow> length rest < length s"
proof -
  assume a: "lexNumber s = Some (n, rest)"
  define s1 where "s1 = (if s \<noteq> [] \<and> hd s = CHR ''-'' then tl s else s)"
  from a have ne: "takeWhile isDigit s1 \<noteq> []"
    by (auto simp: lexNumber_def Let_def s1_def split: if_splits)
  from a obtain fp s2 ex where
    f: "lexFraction (dropWhile isDigit s1) = Some (fp, s2)" and e: "lexExponent s2 = Some (ex, rest)"
    by (auto simp: lexNumber_def Let_def s1_def split: if_splits option.splits)
  have "length (takeWhile isDigit s1) + length (dropWhile isDigit s1) = length s1"
    by (metis length_append takeWhile_dropWhile_id)
  with ne have "length (dropWhile isDigit s1) < length s1"
    by (cases "takeWhile isDigit s1") auto
  moreover have "length s1 \<le> length s" by (simp add: s1_def)
  ultimately show ?thesis
    using lexFraction_shorter [OF f] lexExponent_shorter [OF e] by linarith
qed

fun tweight :: "token \<Rightarrow> nat" where
  \<comment> \<open>a lower bound of the number of characters a token takes in the text\<close>
  "tweight (TString s) = length s + 2"
| "tweight _ = 1"

definition punct :: "char \<Rightarrow> token option" where
  "punct c =
     (if c = CHR ''{'' then Some TLBrace
      else if c = CHR ''}'' then Some TRBrace
      else if c = CHR ''['' then Some TLBracket
      else if c = CHR '']'' then Some TRBracket
      else if c = CHR '':'' then Some TColon
      else if c = CHR '','' then Some TComma
      else None)"

definition lexKeyword :: "string \<Rightarrow> (token \<times> string) option" where
  "lexKeyword s =
     (if startsWith ''true'' s then Some (TTrue, drop 4 s)
      else if startsWith ''false'' s then Some (TFalse, drop 5 s)
      else if startsWith ''null'' s then Some (TNull, drop 4 s)
      else None)"

definition lexToken :: "char \<Rightarrow> string \<Rightarrow> (token \<times> string) option" where
  \<comment> \<open>the token that starts with the character \<open>c\<close>, and the text after it\<close>
  "lexToken c cs =
     (case punct c of
        Some t \<Rightarrow> Some (t, cs)
      | None \<Rightarrow>
          if c = CHR 0x22 then
            (case lexString cs of
               None \<Rightarrow> None
             | Some (s, rest) \<Rightarrow> Some (TString s, rest))
          else if c = CHR ''-'' \<or> isDigit c then
            (case lexNumber (c # cs) of
               None \<Rightarrow> None
             | Some (n, rest) \<Rightarrow> Some (TNumber n, rest))
          else lexKeyword (c # cs))"

lemma lexString_consumed: "lexString s = Some (v, rest) \<Longrightarrow> length v + length rest < length s"
proof (induction s arbitrary: v rest rule: lexString.induct)
  case 1
  then show ?case by simp
next
  case (2 c cs)
  show ?case
  proof (cases "c = CHR 0x22")
    case True
    with "2.prems" show ?thesis by simp
  next
    case nq: False
    show ?thesis
    proof (cases "c = CHR 0x5C")
      case True
      with nq "2.prems" obtain u r where e: "lexEscape cs = Some (u, r)"
        and c: "consChar u (lexString r) = Some (v, rest)"
        by (auto split: option.splits)
      from consChar_Some [OF c] obtain w where w: "lexString r = Some (w, rest)" "v = u # w" by auto
      from "2.IH"(1) [OF nq True e refl w(1)] lexEscape_shorter [OF e] w(2)
      show ?thesis by simp
    next
      case nb: False
      with nq "2.prems" have lo: "\<not> (of_char c :: nat) < 0x20"
        and c: "consChar c (lexString cs) = Some (v, rest)"
        by (auto split: if_splits)
      from consChar_Some [OF c] obtain w where w: "lexString cs = Some (w, rest)" "v = c # w" by auto
      from "2.IH"(2) [OF nq nb lo w(1)] w(2) show ?thesis by simp
    qed
  qed
qed

lemma lexKeyword_consumed:
  "lexKeyword (c # cs) = Some (t, rest) \<Longrightarrow> length rest + tweight t \<le> Suc (length cs)"
  by (auto simp: lexKeyword_def split: if_splits)

lemma punct_weight: "punct c = Some p \<Longrightarrow> tweight p = 1"
  by (auto simp: punct_def split: if_splits)

lemma lexToken_consumed:
  assumes "lexToken c cs = Some (t, rest)"
  shows "length rest + tweight t \<le> Suc (length cs)"
proof (cases "punct c")
  case (Some p)
  with assms punct_weight [OF Some] show ?thesis by (auto simp: lexToken_def)
next
  case None
  show ?thesis
  proof (cases "c = CHR 0x22")
    case True
    with None assms obtain x where "lexString cs = Some (x, rest)" "t = TString x"
      by (auto simp: lexToken_def split: option.splits)
    with lexString_consumed [of cs x rest] show ?thesis by simp
  next
    case nq: False
    show ?thesis
    proof (cases "c = CHR ''-'' \<or> isDigit c")
      case True
      with None nq assms obtain n where "lexNumber (c # cs) = Some (n, rest)" "t = TNumber n"
        by (auto simp: lexToken_def split: option.splits)
      with lexNumber_shorter [of "c # cs" n rest] show ?thesis by simp
    next
      case False
      with None nq assms have "lexKeyword (c # cs) = Some (t, rest)"
        by (simp add: lexToken_def)
      then show ?thesis by (rule lexKeyword_consumed)
    qed
  qed
qed

lemma tweight_pos: "1 \<le> tweight t"
  by (cases t) auto

function lex :: "string \<Rightarrow> token list option" where
  "lex [] = Some []"
| "lex (c # cs) =
     (if isJsonWs c then lex cs
      else
        (case lexToken c cs of
           None \<Rightarrow> None
         | Some (t, rest) \<Rightarrow> map_option (Cons t) (lex rest)))"
  by pat_completeness auto
termination
proof (relation "measure length", goal_cases)
  case (3 c cs x t rest)
  then show ?case using lexToken_consumed [of c cs t rest] tweight_pos [of t] by simp
qed simp_all

declare lex.simps [simp del]

subsection \<open>The parser of \<^verbatim>\<open>JSON.parse\<close>\<close>

text \<open>
  The grammar of JSON is run as a pushdown automaton over the tokens: a frame of the
  stack is an array or an object under construction, the mode says which token may come
  next.  The automaton reads every token once, so it is total.
\<close>

datatype frame =
    FArr "json list"
  | FObj "(string \<times> json) list" "string option"

datatype mode = ExpVal | ExpValOrClose | ExpKeyOrClose | ExpKey | ExpColon | ExpCommaOrClose

datatype pstate = Run "frame list" mode | Done json

fun complete :: "json \<Rightarrow> frame list \<Rightarrow> pstate option" where
  \<comment> \<open>a value is finished: it is the result, the next element, or the value of the
      pending key\<close>
  "complete v [] = Some (Done v)"
| "complete v (FArr els # st) = Some (Run (FArr (els @ [v]) # st) ExpCommaOrClose)"
| "complete v (FObj ms (Some k) # st) = Some (Run (FObj (js_put k v ms) None # st) ExpCommaOrClose)"
| "complete v (FObj ms None # st) = None"

fun scalarOf :: "token \<Rightarrow> json option" where
  "scalarOf (TString s) = Some (JString s)"
| "scalarOf (TNumber n) = Some (JNumber n)"
| "scalarOf TTrue = Some (JBool True)"
| "scalarOf TFalse = Some (JBool False)"
| "scalarOf TNull = Some JNull"
| "scalarOf _ = None"

fun openValue :: "token \<Rightarrow> frame list \<Rightarrow> pstate option" where
  "openValue TLBracket st = Some (Run (FArr [] # st) ExpValOrClose)"
| "openValue TLBrace st = Some (Run (FObj [] None # st) ExpKeyOrClose)"
| "openValue t st = (case scalarOf t of None \<Rightarrow> None | Some v \<Rightarrow> complete v st)"

fun closeArray :: "frame list \<Rightarrow> pstate option" where
  "closeArray (FArr els # st) = complete (JArray els) st"
| "closeArray _ = None"

fun closeObject :: "frame list \<Rightarrow> pstate option" where
  "closeObject (FObj ms None # st) = complete (JObject ms) st"
| "closeObject _ = None"

fun takeKey :: "token \<Rightarrow> frame list \<Rightarrow> pstate option" where
  "takeKey (TString k) (FObj ms None # st) = Some (Run (FObj ms (Some k) # st) ExpColon)"
| "takeKey _ _ = None"

fun afterComma :: "frame list \<Rightarrow> pstate option" where
  "afterComma (FArr els # st) = Some (Run (FArr els # st) ExpVal)"
| "afterComma (FObj ms None # st) = Some (Run (FObj ms None # st) ExpKey)"
| "afterComma _ = None"

fun step :: "pstate \<Rightarrow> token \<Rightarrow> pstate option" where
  "step (Done v) t = None"
| "step (Run st ExpVal) t = openValue t st"
| "step (Run st ExpValOrClose) t = (if t = TRBracket then closeArray st else openValue t st)"
| "step (Run st ExpKeyOrClose) t = (if t = TRBrace then closeObject st else takeKey t st)"
| "step (Run st ExpKey) t = takeKey t st"
| "step (Run st ExpColon) t = (if t = TColon then Some (Run st ExpVal) else None)"
| "step (Run st ExpCommaOrClose) t =
     (if t = TComma then afterComma st
      else if t = TRBracket then closeArray st
      else if t = TRBrace then closeObject st
      else None)"

fun run :: "pstate \<Rightarrow> token list \<Rightarrow> json option" where
  "run s [] = (case s of Done v \<Rightarrow> Some v | Run st m \<Rightarrow> None)"
| "run s (t # ts) = (case step s t of None \<Rightarrow> None | Some s' \<Rightarrow> run s' ts)"

definition json_parse :: "string \<Rightarrow> json option" where
  \<comment> \<open>\<^verbatim>\<open>JSON.parse(text)\<close>; \<open>None\<close> is the \<^verbatim>\<open>SyntaxError\<close> it throws.  A text with an escape
      above \<^verbatim>\<open>\u00FF\<close> is read by \<^verbatim>\<open>JSON.parse\<close> to a string that is outside the model: it
      gives \<open>None\<close> here as well\<close>
  "json_parse text = (case lex text of None \<Rightarrow> None | Some ts \<Rightarrow> run (Run [] ExpVal) ts)"

subsection \<open>A parsed value is no larger than its text\<close>

text \<open>
  The weight of a value is a lower bound of the length of every text that parses to it.
  It is the measure by which the recursive normalisation of the open field map
  terminates.
\<close>

fun jweight :: "json \<Rightarrow> nat" where
  "jweight JNull = 1"
| "jweight (JBool b) = 1"
| "jweight (JNumber n) = 1"
| "jweight (JString s) = length s + 2"
| "jweight (JArray xs) = 2 + sum_list (map jweight xs)"
| "jweight (JObject ms) = 2 + sum_list (map (\<lambda>kv. jweight (snd kv)) ms)"

abbreviation mweight :: "(string \<times> json) list \<Rightarrow> nat" where
  "mweight ms \<equiv> sum_list (map (\<lambda>kv. jweight (snd kv)) ms)"

fun fweight :: "frame \<Rightarrow> nat" where
  "fweight (FArr els) = 1 + sum_list (map jweight els)"
| "fweight (FObj ms k) = 1 + mweight ms"

fun sweight :: "pstate \<Rightarrow> nat" where
  "sweight (Run st m) = sum_list (map fweight st)"
| "sweight (Done v) = jweight v"

lemma updateKey_weight: "mweight (updateKey k v ms) \<le> mweight ms + jweight v"
  by (induction ms) auto

lemma insertIndexKey_weight: "mweight (insertIndexKey k v ms) = mweight ms + jweight v"
  by (induction ms) auto

lemma js_put_weight: "mweight (js_put k v ms) \<le> mweight ms + jweight v"
  using updateKey_weight [of k v ms] insertIndexKey_weight [of k v ms]
  by (simp add: js_put_def)

lemma map_of_weight: "map_of ms k = Some v \<Longrightarrow> jweight v \<le> mweight ms"
  by (induction ms) (auto split: if_splits)

lemma complete_weight:
  "complete v st = Some s' \<Longrightarrow> sweight s' \<le> jweight v + sum_list (map fweight st)"
proof (induction v st rule: complete.induct)
  case (3 v ms k st)
  then show ?case using js_put_weight [of k v ms] by auto
qed auto

lemma scalarOf_weight: "scalarOf t = Some v \<Longrightarrow> jweight v \<le> tweight t"
  by (cases t) auto

lemma openValue_weight:
  "openValue t st = Some s' \<Longrightarrow> sweight s' \<le> sum_list (map fweight st) + tweight t"
proof (cases "scalarOf t")
  case None
  assume "openValue t st = Some s'"
  with None show ?thesis by (cases t) auto
next
  case (Some v)
  assume "openValue t st = Some s'"
  with Some have "complete v st = Some s'" by (cases t) auto
  from complete_weight [OF this] scalarOf_weight [OF Some] show ?thesis by simp
qed

lemma closeArray_weight:
  "closeArray st = Some s' \<Longrightarrow> sweight s' \<le> sum_list (map fweight st) + 1"
proof (induction st rule: closeArray.induct)
  case (1 els st)
  then show ?case using complete_weight [of "JArray els" st s'] by simp
qed auto

lemma closeObject_weight:
  "closeObject st = Some s' \<Longrightarrow> sweight s' \<le> sum_list (map fweight st) + 1"
proof (induction st rule: closeObject.induct)
  case (1 ms st)
  then show ?case using complete_weight [of "JObject ms" st s'] by simp
qed auto

lemma takeKey_weight:
  "takeKey t st = Some s' \<Longrightarrow> sweight s' \<le> sum_list (map fweight st) + tweight t"
  by (induction t st rule: takeKey.induct) auto

lemma afterComma_weight:
  "afterComma st = Some s' \<Longrightarrow> sweight s' \<le> sum_list (map fweight st)"
  by (induction st rule: afterComma.induct) auto

lemma step_weight: "step s t = Some s' \<Longrightarrow> sweight s' \<le> sweight s + tweight t"
proof (induction s t rule: step.induct)
  case (1 v t)
  then show ?case by simp
next
  case (2 st t)
  then show ?case using openValue_weight [of t st s'] by simp
next
  case (3 st t)
  then show ?case
    using openValue_weight [of t st s'] closeArray_weight [of st s']
    by (auto split: if_splits)
next
  case (4 st t)
  then show ?case
    using takeKey_weight [of t st s'] closeObject_weight [of st s']
    by (auto split: if_splits)
next
  case (5 st t)
  then show ?case using takeKey_weight [of t st s'] by simp
next
  case (6 st t)
  then show ?case by (auto split: if_splits)
next
  case (7 st t)
  then show ?case
    using afterComma_weight [of st s'] closeArray_weight [of st s'] closeObject_weight [of st s']
    by (auto split: if_splits)
qed

lemma run_weight: "run s ts = Some v \<Longrightarrow> jweight v \<le> sweight s + sum_list (map tweight ts)"
proof (induction ts arbitrary: s)
  case Nil
  then show ?case by (cases s) auto
next
  case (Cons t ts)
  then obtain s' where st: "step s t = Some s'" and r: "run s' ts = Some v"
    by (auto split: option.splits)
  from Cons.IH [OF r] step_weight [OF st] show ?case by simp
qed


lemma lex_weight: "lex s = Some ts \<Longrightarrow> sum_list (map tweight ts) \<le> length s"
proof (induction s arbitrary: ts rule: lex.induct)
  case 1
  then show ?case by (simp add: lex.simps)
next
  case (2 c cs)
  show ?case
  proof (cases "isJsonWs c")
    case True
    with "2.prems" have "lex cs = Some ts" by (simp add: lex.simps)
    from "2.IH"(1) [OF True this] show ?thesis by simp
  next
    case False
    with "2.prems" obtain t rest ts' where tk: "lexToken c cs = Some (t, rest)"
      and l: "lex rest = Some ts'" and ts: "ts = t # ts'"
      by (auto simp: lex.simps split: option.splits)
    from "2.IH"(2) [OF False tk refl l] lexToken_consumed [OF tk] ts
    show ?thesis by simp
  qed
qed

lemma json_parse_weight: "json_parse s = Some v \<Longrightarrow> jweight v \<le> length s"
proof -
  assume "json_parse s = Some v"
  then obtain ts where l: "lex s = Some ts" and r: "run (Run [] ExpVal) ts = Some v"
    by (auto simp: json_parse_def split: option.splits)
  from run_weight [OF r] lex_weight [OF l] show ?thesis by simp
qed

section \<open>Coercion to text\<close>

definition digitsOfLength :: "rat \<Rightarrow> int \<Rightarrow> (int \<times> int) option" where
  \<comment> \<open>for a positive double \<open>v\<close>: the decimal \<open>s * 10 ^ p\<close> of \<open>k\<close> digits that is read back as
      \<open>v\<close>, the one nearest to \<open>v\<close> (the even \<open>s\<close> of two that are as near) when there are two;
      the candidates are the two decimals of \<open>k\<close> digits around \<open>v\<close>\<close>
  "digitsOfLength v k =
     (let p = floorLog 10 decimalLength v + 1 - k;
          x = v / scale 10 p;
          lo = \<lfloor>x\<rfloor>;
          okLo = (nearestDouble (of_int lo * scale 10 p) = Finite v);
          okHi = (nearestDouble (of_int (lo + 1) * scale 10 p) = Finite v);
          loNearer = (x - of_int lo < of_int (lo + 1) - x \<or>
                      (x - of_int lo = of_int (lo + 1) - x \<and> even lo))
      in if okLo \<and> (\<not> okHi \<or> loNearer) then Some (lo, p)
         else if okHi then Some (lo + 1, p)
         else None)"

fun shortestDigits :: "rat \<Rightarrow> nat \<Rightarrow> int \<Rightarrow> int \<times> int" where
  \<comment> \<open>the decimal with the fewest digits that is read back as \<open>v\<close>, looked for from \<open>k\<close>
      digits on; 17 digits are enough for every double, so the first equation is not
      reached from \<open>shortestDigits v 17 1\<close>\<close>
  "shortestDigits v 0 k =
     (\<lfloor>v / scale 10 (floorLog 10 decimalLength v + 1 - k)\<rfloor>, floorLog 10 decimalLength v + 1 - k)"
| "shortestDigits v (Suc fuel) k =
     (case digitsOfLength v k of Some d \<Rightarrow> d | None \<Rightarrow> shortestDigits v fuel (k + 1))"

function digitsOfInt :: "int \<Rightarrow> string" where
  \<comment> \<open>the decimal digits of an integer that is not negative, most significant first\<close>
  "digitsOfInt n =
     (if n < 10 then [digitChar (nat n)]
      else digitsOfInt (n div 10) @ [digitChar (nat (n mod 10))])"
  by pat_completeness auto
termination
  by (relation "measure nat") auto

declare digitsOfInt.simps [simp del]

definition decimalToString :: "int \<Rightarrow> int \<Rightarrow> string" where
  \<comment> \<open>the notation of \<^verbatim>\<open>Number::toString\<close> for the positive decimal \<open>m * 10 ^ e\<close>: \<open>ds\<close> are
      the significant digits, \<open>k\<close> their number and \<open>n\<close> the position of the decimal point\<close>
  "decimalToString m e =
     (let ds0 = digitsOfInt m;
          tz = length (takeWhile (\<lambda>c. c = CHR ''0'') (rev ds0));
          ds = take (length ds0 - tz) ds0;
          k = int (length ds);
          n = k + e + int tz;
          ex = (if n - 1 < 0 then ''-'' else ''+'') @ natToString (nat \<bar>n - 1\<bar>)
      in if k \<le> n \<and> n \<le> 21 then ds @ replicate (nat (n - k)) (CHR ''0'')
         else if 0 < n \<and> n \<le> 21 then take (nat n) ds @ ''.'' @ drop (nat n) ds
         else if -6 < n \<and> n \<le> 0 then ''0.'' @ replicate (nat (- n)) (CHR ''0'') @ ds
         else if k = 1 then ds @ ''e'' @ ex
         else take 1 ds @ ''.'' @ drop 1 ds @ ''e'' @ ex)"

definition doubleToString :: "double \<Rightarrow> string" where
  \<comment> \<open>\<^verbatim>\<open>Number::toString\<close>: the shortest decimal that is read back as the double\<close>
  "doubleToString d =
     (case d of
        PlusInfinity \<Rightarrow> ''Infinity''
      | MinusInfinity \<Rightarrow> ''-Infinity''
      | Finite v \<Rightarrow>
          if v = 0 then ''0''
          else
            (let sp = shortestDigits \<bar>v\<bar> 17 1
             in (if v < 0 then ''-'' else []) @ decimalToString (fst sp) (snd sp)))"

definition numberToString :: "jsnum \<Rightarrow> string" where
  \<comment> \<open>\<^verbatim>\<open>String(x)\<close> of a number\<close>
  "numberToString n = doubleToString (numValue n)"

definition hexDigit :: "nat \<Rightarrow> char" where
  "hexDigit d = (if d < 10 then char_of (0x30 + d) else char_of (0x57 + d))"

definition quoteChar :: "char \<Rightarrow> string" where
  \<comment> \<open>one character inside \<^verbatim>\<open>QuoteJSONString\<close>\<close>
  "quoteChar c =
     (if c = CHR 0x22 then [CHR 0x5C, CHR 0x22]
      else if c = CHR 0x5C then [CHR 0x5C, CHR 0x5C]
      else if c = CHR 0x08 then [CHR 0x5C, CHR ''b'']
      else if c = CHR 0x0C then [CHR 0x5C, CHR ''f'']
      else if c = CHR 0x0A then [CHR 0x5C, CHR ''n'']
      else if c = CHR 0x0D then [CHR 0x5C, CHR ''r'']
      else if c = CHR 0x09 then [CHR 0x5C, CHR ''t'']
      else if (of_char c :: nat) < 0x20
        then [CHR 0x5C, CHR ''u'', CHR ''0'', CHR ''0'',
              hexDigit (of_char c div 16), hexDigit (of_char c mod 16)]
      else [c])"

definition quoteJSONString :: "string \<Rightarrow> string" where
  "quoteJSONString s = [CHR 0x22] @ concat (map quoteChar s) @ [CHR 0x22]"

fun json_stringify :: "json \<Rightarrow> string" where
  \<comment> \<open>\<^verbatim>\<open>JSON.stringify(v)\<close> of a value that \<^verbatim>\<open>JSON.parse\<close> returned\<close>
  "json_stringify JNull = ''null''"
| "json_stringify (JBool b) = (if b then ''true'' else ''false'')"
| "json_stringify (JNumber n) =
     (case numValue n of Finite v \<Rightarrow> numberToString n | _ \<Rightarrow> ''null'')"
| "json_stringify (JString s) = quoteJSONString s"
| "json_stringify (JArray xs) = ''['' @ join '','' (map json_stringify xs) @ '']''"
| "json_stringify (JObject ms) =
     ''{'' @ join '','' (map (\<lambda>kv. quoteJSONString (fst kv) @ '':'' @ json_stringify (snd kv)) ms) @ ''}''"

fun asText :: "json option \<Rightarrow> string" where
  \<comment> \<open>\<^verbatim>\<open>asText\<close>; \<open>None\<close> is \<^verbatim>\<open>undefined\<close>\<close>
  "asText (Some (JString s)) = trim s"
| "asText (Some (JNumber n)) = numberToString n"
| "asText (Some (JBool b)) = (if b then ''true'' else ''false'')"
| "asText (Some (JArray xs)) = json_stringify (JArray xs)"
| "asText (Some (JObject ms)) = json_stringify (JObject ms)"
| "asText (Some JNull) = []"
| "asText None = []"

section \<open>The form definition and the field identifiers\<close>

text \<open>
  The pages of the form come from \<^verbatim>\<open>form-pages.json\<close>, which is not part of the sources
  at hand: \<open>formPages\<close> is a parameter of every function that reads it.
\<close>

record FormItem =
  area :: string
  question :: string
  helpText :: string

record FormPage =
  title :: string
  items :: "FormItem list"

definition summaryStepIndex :: "FormPage list \<Rightarrow> int" where
  "summaryStepIndex formPages = int (length formPages)"

definition pageAt :: "FormPage list \<Rightarrow> int \<Rightarrow> FormPage option" where
  \<comment> \<open>\<^verbatim>\<open>formPages[i]\<close>; \<open>None\<close> is \<^verbatim>\<open>undefined\<close>\<close>
  "pageAt formPages i = (if 0 \<le> i \<and> i < int (length formPages) then Some (formPages ! nat i) else None)"

definition foldDiacritic :: "char \<Rightarrow> char" where
  \<comment> \<open>\<^verbatim>\<open>normalize('NFD')\<close> followed by the removal of the combining marks
      \<open>U+0300 .. U+036F\<close>, on a lower-case Latin-1 character: an accented letter becomes its
      base letter\<close>
  "foldDiacritic c =
     (let n = of_char c :: nat in
      if 0xE0 \<le> n \<and> n \<le> 0xE5 then CHR ''a''
      else if n = 0xE7 then CHR ''c''
      else if 0xE8 \<le> n \<and> n \<le> 0xEB then CHR ''e''
      else if 0xEC \<le> n \<and> n \<le> 0xEF then CHR ''i''
      else if n = 0xF1 then CHR ''n''
      else if 0xF2 \<le> n \<and> n \<le> 0xF6 then CHR ''o''
      else if 0xF9 \<le> n \<and> n \<le> 0xFC then CHR ''u''
      else if n = 0xFD \<or> n = 0xFF then CHR ''y''
      else c)"

definition isSlugChar :: "char \<Rightarrow> bool" where
  \<comment> \<open>the class \<^verbatim>\<open>[a-z0-9]\<close>\<close>
  "isSlugChar c = (let n = of_char c :: nat in (0x61 \<le> n \<and> n \<le> 0x7A) \<or> (0x30 \<le> n \<and> n \<le> 0x39))"

fun collapseRuns :: "bool \<Rightarrow> string \<Rightarrow> string" where
  \<comment> \<open>\<^verbatim>\<open>replace(/[^a-z0-9]+/g, '-')\<close>; the flag says that the run of other
      characters being read has its separator already\<close>
  "collapseRuns inRun [] = []"
| "collapseRuns inRun (c # cs) =
     (if isSlugChar c then c # collapseRuns False cs
      else if inRun then collapseRuns True cs
      else CHR ''-'' # collapseRuns True cs)"

definition stripDashes :: "string \<Rightarrow> string" where
  \<comment> \<open>\<^verbatim>\<open>replace(/(^-|-$)/g, '')\<close>\<close>
  "stripDashes s =
     (let s1 = (if s \<noteq> [] \<and> hd s = CHR ''-'' then tl s else s)
      in if s1 \<noteq> [] \<and> last s1 = CHR ''-'' then butlast s1 else s1)"

definition slugify :: "string \<Rightarrow> string" where
  "slugify v = stripDashes (collapseRuns False (map foldDiacritic (toLowerCase v)))"

definition makeFieldId :: "int \<Rightarrow> string \<Rightarrow> string" where
  "makeFieldId pageIndex q = ''step-'' @ intToString pageIndex @ ''-'' @ slugify q"

record FormFieldDescriptor =
  fieldId :: string
  pageTitle :: string
  question :: string

definition formFieldDescriptors :: "FormPage list \<Rightarrow> FormFieldDescriptor list" where
  "formFieldDescriptors formPages =
     concat (map (\<lambda>(pageIndex, page).
                  map (\<lambda>item. \<lparr>fieldId = makeFieldId (int pageIndex) (FormItem.question item),
                                 pageTitle = title page,
                                 question = FormItem.question item\<rparr>) (items page))
                (enumerate 0 formPages))"

definition validFieldIdSet :: "FormPage list \<Rightarrow> string set" where
  "validFieldIdSet formPages = set (map fieldId (formFieldDescriptors formPages))"

section \<open>Failures\<close>

text \<open>
  A function of the program that throws returns \<open>Inl\<close> of the failure.  The program
  throws \<^verbatim>\<open>Error\<close> objects told apart by their message only; the constructors name
  the conditions:
  \<^item> \<open>EmptyReply\<close>: the reply of the model is blank (the message that starts
    \<^verbatim>\<open>La respuesta de la IA vino\<close>, and the message of \<^verbatim>\<open>applyPrefillResult\<close> for a blank
    text);
  \<^item> \<open>ExtractionFailed\<close>: no attempt read the reply (the messages that start
    \<^verbatim>\<open>No pudimos interpretar\<close>);
  \<^item> \<open>FieldsNotFound\<close>: the target page has too few questions (the messages that start
    \<^verbatim>\<open>No encontramos\<close>);
  \<^item> \<open>UnknownFieldsOnly\<close>: no entry names a field of the form (the message that ends
    \<^verbatim>\<open>campos conocidos para completar.\<close>);
  \<^item> \<open>NoFieldsFilled\<close>: no entry is left for an empty field (the message that ends
    \<^verbatim>\<open>para completar con el brief proporcionado.\<close>);
  \<^item> \<open>ImportRejected\<close>: the imported file is no JSON text or holds no answers
    (\<^verbatim>\<open>El archivo no contiene respuestas.\<close>, or the \<^verbatim>\<open>SyntaxError\<close> of \<^verbatim>\<open>JSON.parse\<close>).
\<close>

datatype error =
    EmptyReply
  | ExtractionFailed
  | FieldsNotFound
  | UnknownFieldsOnly
  | NoFieldsFilled
  | ImportRejected

section \<open>The quantitative triple (TAM, SAM, SOM)\<close>

record TamSamSom =
  tam :: string
  sam :: string
  som :: string

definition tryParseJson :: "string \<Rightarrow> TamSamSom option" where
  \<comment> \<open>the local function \<^verbatim>\<open>tryParseJson\<close> of \<^verbatim>\<open>parseAiResult\<close>.  When the text parses to
      \<^verbatim>\<open>null\<close> the property read throws and the \<^verbatim>\<open>catch\<close> returns \<^verbatim>\<open>null\<close>, which is
      also what empty slots give\<close>
  "tryParseJson raw =
     (case json_parse raw of
        None \<Rightarrow> None
      | Some parsed \<Rightarrow>
          (let t = asText (orElse (js_get parsed ''tam'') (js_get parsed ''TAM''));
               s = asText (orElse (js_get parsed ''sam'') (js_get parsed ''SAM''));
               m = asText (orElse (js_get parsed ''som'') (js_get parsed ''SOM''))
           in if t \<noteq> [] \<and> s \<noteq> [] \<and> m \<noteq> []
              then Some \<lparr>tam = t, sam = s, som = m\<rparr>
              else None))"

definition braceBlock :: "string \<Rightarrow> string option" where
  \<comment> \<open>\<^verbatim>\<open>trimmed.match(/\{[\s\S]+\}/)\<close>: the greedy match runs from the first opening
      brace to the last closing brace of the text, with at least one character between\<close>
  "braceBlock t =
     (let u = dropWhile (\<lambda>c. c \<noteq> CHR ''{'') t
      in if CHR ''}'' \<in> set (drop 2 u)
         then Some (rev (dropWhile (\<lambda>c. c \<noteq> CHR ''}'') (rev u)))
         else None)"

definition labelAt :: "string \<Rightarrow> string option" where
  \<comment> \<open>\<^verbatim>\<open>(TAM|SAM|SOM)\<close> under the flag \<^verbatim>\<open>i\<close>, at the head of the text: the label in
      lower case\<close>
  "labelAt t =
     (let l = toLowerCase (take 3 t)
      in if l \<in> set [''tam'', ''sam'', ''som''] then Some l else None)"

definition headerAt :: "string \<Rightarrow> (string \<times> string) option" where
  \<comment> \<open>\<^verbatim>\<open>(TAM|SAM|SOM)[^:]*:\<close> at the head of the text: the label and the text after
      the colon\<close>
  "headerAt t =
     (case labelAt t of
        None \<Rightarrow> None
      | Some l \<Rightarrow>
          (case dropWhile (\<lambda>c. c \<noteq> CHR '':'') (drop 3 t) of
             [] \<Rightarrow> None
           | c # rest \<Rightarrow> Some (l, rest)))"

fun captureSection :: "string \<Rightarrow> string \<times> string" where
  \<comment> \<open>\<^verbatim>\<open>([\s\S]*?)(?=(TAM|SAM|SOM)[^:]*:|$)\<close>: the shortest text up to the next header
      or the end, and what is left\<close>
  "captureSection [] = ([], [])"
| "captureSection (c # cs) =
     (if headerAt (c # cs) \<noteq> None then ([], c # cs)
      else (case captureSection cs of (body, rest) \<Rightarrow> (c # body, rest)))"

definition setSection :: "string \<Rightarrow> string \<Rightarrow> TamSamSom \<Rightarrow> TamSamSom" where
  \<comment> \<open>\<^verbatim>\<open>sections[key] = v\<close>\<close>
  "setSection key v sections =
     (if key = ''tam'' then sections\<lparr>tam := v\<rparr>
      else if key = ''sam'' then sections\<lparr>sam := v\<rparr>
      else sections\<lparr>som := v\<rparr>)"

lemma captureSection_shorter: "length (snd (captureSection t)) \<le> length t"
  by (induction t) (auto split: prod.splits)

lemma headerAt_shorter: "headerAt t = Some (l, rest) \<Longrightarrow> length rest < length t"
proof -
  assume a: "headerAt t = Some (l, rest)"
  then obtain c where "dropWhile (\<lambda>c. c \<noteq> CHR '':'') (drop 3 t) = c # rest"
    by (auto simp: headerAt_def split: option.splits list.splits)
  then have "Suc (length rest) = length (dropWhile (\<lambda>c. c \<noteq> CHR '':'') (drop 3 t))"
    by simp
  also have "\<dots> \<le> length (drop 3 t)" by (rule length_dropWhile_le)
  also have "\<dots> \<le> length t" by simp
  finally show ?thesis by simp
qed

lemma scan_step_shorter:
  assumes "headerAt t = Some (key, afterColon)"
    and "captureSection (dropWhile isWhiteSpace afterColon) = (body, rest)"
  shows "length rest < length t"
proof -
  have "length rest \<le> length (dropWhile isWhiteSpace afterColon)"
    using captureSection_shorter [of "dropWhile isWhiteSpace afterColon"] assms(2) by simp
  also have "\<dots> \<le> length afterColon" by (rule length_dropWhile_le)
  also have "\<dots> < length t" using assms(1) by (rule headerAt_shorter)
  finally show ?thesis .
qed

function scanSections :: "TamSamSom \<Rightarrow> string \<Rightarrow> TamSamSom" where
  \<comment> \<open>the loop \<^verbatim>\<open>while ((match = regex.exec(trimmed)) !== null)\<close>: the second argument is
      the text from \<^verbatim>\<open>regex.lastIndex\<close> on.  A match starts at the first header; the
      white space after its colon is skipped, the section captured and trimmed\<close>
  "scanSections sections [] = sections"
| "scanSections sections (c # cs) =
     (case headerAt (c # cs) of
        None \<Rightarrow> scanSections sections cs
      | Some (key, afterColon) \<Rightarrow>
          (case captureSection (dropWhile isWhiteSpace afterColon) of
             (body, rest) \<Rightarrow> scanSections (setSection key (trim body) sections) rest))"
  by pat_completeness auto
termination
  by (relation "measure (\<lambda>(sections, t). length t)")
     (auto dest: scan_step_shorter scan_step_shorter [OF _ sym])

declare scanSections.simps [simp del]

definition parseAiResult :: "string \<Rightarrow> TamSamSom option" where
  "parseAiResult text =
     (let trimmed = trim text
      in if trimmed = [] then None
         else
           (case tryParseJson trimmed of
              Some jsonCandidate \<Rightarrow> Some jsonCandidate
            | None \<Rightarrow>
                (case (case braceBlock trimmed of
                         None \<Rightarrow> None
                       | Some blockMatch \<Rightarrow> tryParseJson blockMatch) of
                   Some blockParsed \<Rightarrow> Some blockParsed
                 | None \<Rightarrow>
                     (let sections = scanSections \<lparr>tam = [], sam = [], som = []\<rparr> trimmed
                      in if tam sections \<noteq> [] \<and> sam sections \<noteq> [] \<and> som sections \<noteq> []
                         then Some sections
                         else None))))"

definition itemIds :: "FormPage list \<Rightarrow> int \<Rightarrow> string list" where
  \<comment> \<open>\<^verbatim>\<open>(formPages[stepIndex]?.items ?? []).map((item) => makeFieldId(stepIndex, item.question))\<close>\<close>
  "itemIds formPages stepIndex =
     (case pageAt formPages stepIndex of
        None \<Rightarrow> []
      | Some page \<Rightarrow> map (\<lambda>item. makeFieldId stepIndex (FormItem.question item)) (items page))"

definition applyTamSamSomResult ::
  "FormPage list \<Rightarrow> string \<Rightarrow> int \<Rightarrow> error + (string \<times> string) list" where
  \<comment> \<open>the object literal is built by three assignments, in this order\<close>
  "applyTamSamSomResult formPages text stepIndex =
     (case parseAiResult text of
        None \<Rightarrow> Inl ExtractionFailed
      | Some structured \<Rightarrow>
          (let ids = itemIds formPages stepIndex
           in if length ids < 3 then Inl FieldsNotFound
              else Inr (js_put (ids ! 2) (som structured)
                         (js_put (ids ! 1) (sam structured)
                           (js_put (ids ! 0) (tam structured) [])))))"

section \<open>The fenced code block\<close>

fun firstSome :: "'a option list \<Rightarrow> 'a option" where
  "firstSome [] = None"
| "firstSome (x # xs) = (case x of Some v \<Rightarrow> Some v | None \<Rightarrow> firstSome xs)"

fun lazyUntilFence :: "string \<Rightarrow> string option" where
  \<comment> \<open>\<^verbatim>\<open>([\s\S]+?)```\<close> at the head of the text: the shortest text of one character
      or more that a fence follows\<close>
  "lazyUntilFence [] = None"
| "lazyUntilFence (c # cs) =
     (if startsWith ''```'' cs then Some [c] else map_option (Cons c) (lazyUntilFence cs))"

definition wsBacktrack :: "string \<Rightarrow> string list" where
  \<comment> \<open>the texts left by the greedy \<^verbatim>\<open>\s*\<close>, in the order the matcher tries them: all the
      white space taken first, then one character less at a time\<close>
  "wsBacktrack r = map (\<lambda>n. drop n r) (rev [0 ..< Suc (length (takeWhile isWhiteSpace r))])"

definition fenceAt :: "string \<Rightarrow> string option" where
  \<comment> \<open>\<^verbatim>\<open>/```(?:json)?\s*([\s\S]+?)```/\<close> matched at the head of the text: group 1.
      The optional \<^verbatim>\<open>json\<close> is taken first and given back when no match follows\<close>
  "fenceAt t =
     (if startsWith ''```'' t then
        (let r = drop 3 t
         in firstSome (map lazyUntilFence
              ((if startsWith ''json'' r then wsBacktrack (drop 4 r) else []) @ wsBacktrack r)))
      else None)"

fun fencedBlock :: "string \<Rightarrow> string option" where
  \<comment> \<open>\<^verbatim>\<open>trimmed.match(/```(?:json)?\s*([\s\S]+?)```/)\<close>: group 1 of the leftmost match\<close>
  "fencedBlock [] = None"
| "fencedBlock (c # cs) =
     (case fenceAt (c # cs) of Some b \<Rightarrow> Some b | None \<Rightarrow> fencedBlock cs)"

section \<open>The fixed object (the five forces of Porter)\<close>






section \<open>The tabular list (competitors)\<close>


fun orElseChain :: "json option list \<Rightarrow> json option" where
  \<comment> \<open>\<^verbatim>\<open>a ?? b ?? ... ?? z\<close>\<close>
  "orElseChain [] = None"
| "orElseChain [a] = a"
| "orElseChain (a # b # bs) = orElse a (orElseChain (b # bs))"


definition isObjectType :: "json \<Rightarrow> bool" where
  \<comment> \<open>\<^verbatim>\<open>typeof v === 'object'\<close>: an object, an array or \<^verbatim>\<open>null\<close>\<close>
  "isObjectType v = (case v of JObject ms \<Rightarrow> True | JArray xs \<Rightarrow> True | JNull \<Rightarrow> True | _ \<Rightarrow> False)"











section \<open>The open field map (pre-filling from a brief)\<close>

record PrefillAnswerEntry =
  fieldId :: string
  entryValue :: string

definition prefillEntryOf :: "json \<Rightarrow> PrefillAnswerEntry option" where
  \<comment> \<open>the function mapped over an array of entries; the field \<^verbatim>\<open>value\<close> of the source is
      \<open>entryValue\<close> here\<close>
  "prefillEntryOf entry =
     (if \<not> truthy entry \<or> \<not> isObjectType entry then None
      else
        (let f = asText (orElseChain (map (js_get entry) [''fieldId'', ''id'', ''field'', ''key'']));
             v = asText (orElseChain (map (js_get entry) [''value'', ''answer'', ''text'', ''content'']))
         in if f = [] \<or> v = [] then None else Some \<lparr>fieldId = f, entryValue = v\<rparr>))"

definition directEntryOf :: "FormPage list \<Rightarrow> string \<times> json \<Rightarrow> PrefillAnswerEntry option" where
  \<comment> \<open>the function mapped over \<^verbatim>\<open>Object.entries(record)\<close>\<close>
  "directEntryOf formPages kv =
     (if fst kv \<notin> validFieldIdSet formPages then None
      else
        (let v = asText (Some (snd kv))
         in if v = [] then None else Some \<lparr>fieldId = fst kv, entryValue = v\<rparr>))"

definition nestedKeys :: "string list" where
  "nestedKeys = [''answers'', ''filledAnswers'', ''fields'', ''entries'', ''items'', ''data'']"

fun firstNonEmpty :: "'a list option list \<Rightarrow> 'a list option" where
  \<comment> \<open>the first result \<open>nested\<close> with \<^verbatim>\<open>nested?.length\<close>\<close>
  "firstNonEmpty [] = None"
| "firstNonEmpty (r # rs) =
     (case r of
        Some nested \<Rightarrow> if nested \<noteq> [] then Some nested else firstNonEmpty rs
      | None \<Rightarrow> firstNonEmpty rs)"

function normalizePrefillEntries :: "FormPage list \<Rightarrow> json \<Rightarrow> PrefillAnswerEntry list option" where
  \<comment> \<open>the loop over \<^verbatim>\<open>nestedKeys\<close> returns the result of the first key, in the order of
      the list, that is present and gives entries; a string is parsed and the parsed value
      handed to the routine again\<close>
  "normalizePrefillEntries formPages input =
     (if \<not> truthy input then None
      else
        (case input of
           JArray xs \<Rightarrow>
             (let entries = List.map_filter prefillEntryOf xs
              in if entries = [] then None else Some entries)
         | JObject record \<Rightarrow>
             (case firstNonEmpty
                     (map (\<lambda>key. case map_of record key of
                                    None \<Rightarrow> None
                                  | Some v \<Rightarrow> normalizePrefillEntries formPages v)
                          nestedKeys) of
                Some nested \<Rightarrow> Some nested
              | None \<Rightarrow>
                  (let directEntries = List.map_filter (directEntryOf formPages) record
                   in if directEntries = [] then None else Some directEntries))
         | JString s \<Rightarrow>
             (case json_parse s of
                None \<Rightarrow> None
              | Some parsed \<Rightarrow> normalizePrefillEntries formPages parsed)
         | _ \<Rightarrow> None))"
  by pat_completeness auto
termination
  by (relation "measure (\<lambda>(formPages, input). jweight input)")
     (auto dest!: map_of_weight json_parse_weight)

declare normalizePrefillEntries.simps [simp del]

definition prefillTryParse :: "FormPage list \<Rightarrow> string \<Rightarrow> PrefillAnswerEntry list option" where
  \<comment> \<open>the local function \<^verbatim>\<open>tryParse\<close> of \<^verbatim>\<open>applyPrefillResult\<close>\<close>
  "prefillTryParse formPages payload =
     (case json_parse payload of
        None \<Rightarrow> None
      | Some parsed \<Rightarrow> normalizePrefillEntries formPages parsed)"

definition outerBraces :: "string \<Rightarrow> string option" where
  \<comment> \<open>\<^verbatim>\<open>trimmed.slice(firstBrace, lastBrace + 1)\<close> when both braces are found and the
      last closing one comes after the first opening one\<close>
  "outerBraces t =
     (let firstBrace = length (takeWhile (\<lambda>c. c \<noteq> CHR ''{'') t);
          afterLast = length t - length (takeWhile (\<lambda>c. c \<noteq> CHR ''}'') (rev t))
      in if CHR ''{'' \<in> set t \<and> CHR ''}'' \<in> set t \<and> firstBrace < afterLast - 1
         then Some (take (afterLast - firstBrace) (drop firstBrace t))
         else None)"

definition prefillEntries :: "FormPage list \<Rightarrow> string \<Rightarrow> PrefillAnswerEntry list option" where
  \<comment> \<open>the variable \<^verbatim>\<open>entries\<close> of \<^verbatim>\<open>applyPrefillResult\<close> after its three attempts\<close>
  "prefillEntries formPages trimmed =
     (case prefillTryParse formPages trimmed of
        Some entries \<Rightarrow> Some entries
      | None \<Rightarrow>
          (case (case fencedBlock trimmed of
                   None \<Rightarrow> None
                 | Some blockMatch \<Rightarrow> prefillTryParse formPages blockMatch) of
             Some entries \<Rightarrow> Some entries
           | None \<Rightarrow>
               (case outerBraces trimmed of
                  None \<Rightarrow> None
                | Some slice \<Rightarrow> prefillTryParse formPages slice)))"

definition recognizedEntries :: "FormPage list \<Rightarrow> PrefillAnswerEntry list \<Rightarrow> PrefillAnswerEntry list" where
  "recognizedEntries formPages entries =
     filter (\<lambda>entry. fieldId entry \<in> validFieldIdSet formPages \<and> trim (entryValue entry) \<noteq> []) entries"

definition entriesToAnswerMap :: "PrefillAnswerEntry list \<Rightarrow> (string \<times> string) list" where
  \<comment> \<open>the \<^verbatim>\<open>reduce\<close> with \<^verbatim>\<open>acc[entry.fieldId] = entry.value.trim()\<close>\<close>
  "entriesToAnswerMap entries =
     foldl (\<lambda>acc entry. js_put (fieldId entry) (trim (entryValue entry)) acc) [] entries"

definition validateEntries ::
  "FormPage list \<Rightarrow> PrefillAnswerEntry list \<Rightarrow> error + (string \<times> string) list" where
  \<comment> \<open>the end of \<^verbatim>\<open>applyPrefillResult\<close>, from \<^verbatim>\<open>recognizedEntries\<close> on\<close>
  "validateEntries formPages entries =
     (let recognized = recognizedEntries formPages entries
      in if recognized = [] then Inl UnknownFieldsOnly else Inr (entriesToAnswerMap recognized))"

definition applyPrefillResult :: "FormPage list \<Rightarrow> string \<Rightarrow> error + (string \<times> string) list" where
  "applyPrefillResult formPages text =
     (let trimmed = trim text
      in if trimmed = [] then Inl EmptyReply
         else
           (case prefillEntries formPages trimmed of
              None \<Rightarrow> Inl ExtractionFailed
            | Some entries \<Rightarrow> validateEntries formPages entries))"

section \<open>The state of the application and the merge of the answers\<close>

text \<open>
  The Answer Map is the state \<^verbatim>\<open>answers\<close> of the component \<^verbatim>\<open>App\<close>; the objects that the
  extractors return are lists of properties, as above.  A handler that catches a failure
  reports it in the status message and leaves the rest of the state as it is.
\<close>

datatype StatusMessage = Success | Failure error

record AppState =
  currentStep :: rat
  answers :: "string \<rightharpoonup> string"
  statusMessage :: "StatusMessage option"

definition objectAssign :: "(string \<rightharpoonup> string) \<Rightarrow> (string \<times> string) list \<Rightarrow> (string \<rightharpoonup> string)" where
  \<comment> \<open>\<^verbatim>\<open>{ ...prev, ...updates }\<close>\<close>
  "objectAssign prev updates = foldl (\<lambda>acc kv. acc(fst kv \<mapsto> snd kv)) prev updates"

definition isBlank :: "string option \<Rightarrow> bool" where
  \<comment> \<open>\<^verbatim>\<open>!v?.trim()\<close>; \<open>None\<close> is \<^verbatim>\<open>undefined\<close>\<close>
  "isBlank v = (case v of None \<Rightarrow> True | Some s \<Rightarrow> trim s = [])"

definition sanitizedEntries :: "(string \<rightharpoonup> string) \<Rightarrow> (string \<times> string) list \<Rightarrow> (string \<times> string) list" where
  \<comment> \<open>the filter of \<^verbatim>\<open>handlePrefillWithAi\<close> over \<^verbatim>\<open>Object.entries(updates)\<close>\<close>
  "sanitizedEntries answersNow updates =
     filter (\<lambda>kv. trim (snd kv) \<noteq> [] \<and> isBlank (answersNow (fst kv))) updates"

definition mergePrefill ::
  "(string \<rightharpoonup> string) \<Rightarrow> AppState \<Rightarrow> (string \<times> string) list \<Rightarrow> error + AppState" where
  \<comment> \<open>\<^verbatim>\<open>handlePrefillWithAi\<close> from the filter to \<^verbatim>\<open>setSuccess\<close>.  The filter reads the
      constant \<^verbatim>\<open>answers\<close> that the handler closed over, \<open>answersSeen\<close>;
      \<^verbatim>\<open>setAnswers\<close> updates the answers of the state.  The two are the same map unless an
      answer changed while the request was pending\<close>
  "mergePrefill answersSeen st updates =
     (let entries = sanitizedEntries answersSeen updates
      in if entries = [] then Inl NoFieldsFilled
         else Inr (st\<lparr>answers := objectAssign (answers st) entries, statusMessage := Some Success\<rparr>))"

definition handlePrefillReply ::
  "FormPage list \<Rightarrow> (string \<rightharpoonup> string) \<Rightarrow> AppState \<Rightarrow> string \<Rightarrow> AppState" where
  \<comment> \<open>\<^verbatim>\<open>handlePrefillWithAi\<close> from the reply \<^verbatim>\<open>aiText\<close> of the model on, with its
      \<^verbatim>\<open>catch\<close>\<close>
  "handlePrefillReply formPages answersSeen st aiText =
     (case (if trim aiText = [] then Inl EmptyReply
            else
              (case applyPrefillResult formPages aiText of
                 Inl e \<Rightarrow> Inl e
               | Inr updates \<Rightarrow> mergePrefill answersSeen st updates)) of
        Inl e \<Rightarrow> st\<lparr>statusMessage := Some (Failure e)\<rparr>
      | Inr st' \<Rightarrow> st')"

section \<open>The content of a message\<close>

definition chunkText :: "json \<Rightarrow> string" where
  \<comment> \<open>the function mapped over the chunks\<close>
  "chunkText chunk =
     (if \<not> truthy chunk then []
      else
        (case chunk of
           JString s \<Rightarrow> s
         | JObject ms \<Rightarrow> (case map_of ms ''text'' of Some (JString s) \<Rightarrow> s | _ \<Rightarrow> [])
         | _ \<Rightarrow> []))"

definition extractMessageContent :: "json \<Rightarrow> string" where
  "extractMessageContent content =
     (case content of
        JString s \<Rightarrow> s
      | JArray chunks \<Rightarrow> join [CHR 0x0A] (filter (\<lambda>s. s \<noteq> []) (map chunkText chunks))
      | _ \<Rightarrow> [])"

section \<open>The context sent to the model\<close>

definition noAnswers :: string where
  "noAnswers = ''Sin respuestas previas disponibles.''"

definition contextEntry :: "(string \<rightharpoonup> string) \<Rightarrow> int \<Rightarrow> FormItem \<Rightarrow> string option" where
  \<comment> \<open>the function mapped over the items of a page; \<open>None\<close> is the \<^verbatim>\<open>null\<close> that
      \<^verbatim>\<open>filter(Boolean)\<close> removes\<close>
  "contextEntry answersNow pageIndex item =
     (case answersNow (makeFieldId pageIndex (FormItem.question item)) of
        None \<Rightarrow> None
      | Some answer \<Rightarrow>
          if trim answer = [] then None
          else Some (''- '' @ FormItem.question item @ '': '' @ trim answer))"

definition contextSection :: "(string \<rightharpoonup> string) \<Rightarrow> nat \<times> FormPage \<Rightarrow> string option" where
  \<comment> \<open>the function mapped over the pages, with the index of the page\<close>
  "contextSection answersNow ip =
     (let entries = List.map_filter (contextEntry answersNow (int (fst ip))) (items (snd ip))
      in if entries = [] then None
         else Some (title (snd ip) @ '':'' @ [CHR 0x0A] @ join [CHR 0x0A] entries))"

definition buildBusinessContext :: "FormPage list \<Rightarrow> (string \<rightharpoonup> string) \<Rightarrow> int \<Rightarrow> string" where
  "buildBusinessContext formPages answersNow targetStepIndex =
     (if targetStepIndex \<le> 0 then noAnswers
      else
        (let sections = List.map_filter (contextSection answersNow)
                          (enumerate 0 (take (nat targetStepIndex) formPages))
         in if sections \<noteq> [] then join [CHR 0x0A, CHR 0x0A] sections else noAnswers))"

section \<open>The import of a file\<close>

definition objectEntries :: "json \<Rightarrow> (string \<times> json) list" where
  \<comment> \<open>\<^verbatim>\<open>Object.entries(v)\<close> of a value that is neither \<^verbatim>\<open>null\<close> nor \<^verbatim>\<open>undefined\<close>: the
      properties of an object, the elements of an array and the characters of a string
      under their indices, nothing for a number or a boolean\<close>
  "objectEntries v =
     (case v of
        JObject ms \<Rightarrow> ms
      | JArray xs \<Rightarrow> map (\<lambda>(i, x). (natToString i, x)) (enumerate 0 xs)
      | JString s \<Rightarrow> map (\<lambda>(i, c). (natToString i, JString [c])) (enumerate 0 s)
      | _ \<Rightarrow> [])"

definition truthyProp :: "json option \<Rightarrow> bool" where
  \<comment> \<open>\<^verbatim>\<open>Boolean(v)\<close> of a property that may be \<^verbatim>\<open>undefined\<close>\<close>
  "truthyProp v = (case v of None \<Rightarrow> False | Some x \<Rightarrow> truthy x)"

definition propEntries :: "json option \<Rightarrow> (string \<times> json) list" where
  \<comment> \<open>\<^verbatim>\<open>Object.entries\<close> of a property that the caller has found truthy\<close>
  "propEntries v = (case v of None \<Rightarrow> [] | Some x \<Rightarrow> objectEntries x)"

definition clampStep :: "FormPage list \<Rightarrow> double \<Rightarrow> rat" where
  \<comment> \<open>\<^verbatim>\<open>Math.max(0, Math.min(stepIndex, summaryStepIndex))\<close>\<close>
  "clampStep formPages stepIndex =
     (case stepIndex of
        Finite x \<Rightarrow> max 0 (min x (of_int (summaryStepIndex formPages)))
      | PlusInfinity \<Rightarrow> max 0 (of_int (summaryStepIndex formPages))
      | MinusInfinity \<Rightarrow> 0)"

definition sanitizedAnswers :: "(string \<times> json) list \<Rightarrow> (string \<times> string) list" where
  \<comment> \<open>the \<^verbatim>\<open>reduce\<close> of \<^verbatim>\<open>parseImport\<close>.  The accumulator is a fresh object literal, so
      \<^verbatim>\<open>acc[key] = value\<close> with the key \<^verbatim>\<open>__proto__\<close> calls the setter of
      \<^verbatim>\<open>Object.prototype\<close>, which does nothing for a string: no property is created.  No
      other key is an accessor of \<^verbatim>\<open>Object.prototype\<close>\<close>
  "sanitizedAnswers entries =
     foldl (\<lambda>acc kv. case snd kv of
                         JString s \<Rightarrow> if fst kv = ''__proto__'' then acc else js_put (fst kv) s acc
                       | _ \<Rightarrow> acc) [] entries"

definition parseImport :: "FormPage list \<Rightarrow> AppState \<Rightarrow> string \<Rightarrow> error + AppState" where
  \<comment> \<open>\<open>Inl\<close> when \<^verbatim>\<open>JSON.parse\<close> or \<^verbatim>\<open>parseImport\<close> itself throws.  A number of a JSON text
      is never \<^verbatim>\<open>NaN\<close>, so the test \<^verbatim>\<open>Number.isNaN\<close> decides nothing.  \<^verbatim>\<open>goToStep\<close> clamps the
      step, already clamped, once more\<close>
  "parseImport formPages st text =
     (case json_parse text of
        None \<Rightarrow> Inl ImportRejected
      | Some parsed \<Rightarrow>
          if \<not> truthy parsed \<or> \<not> isObjectType parsed \<or> \<not> truthyProp (js_get parsed ''answers'')
          then Inl ImportRejected
          else
            (let importedStep =
                   (case js_get parsed ''currentStep'' of
                      Some (JNumber n) \<Rightarrow> clampStep formPages (numValue n)
                    | _ \<Rightarrow> 0)
             in Inr (st\<lparr>answers := map_of (sanitizedAnswers (propEntries (js_get parsed ''answers''))),
                         currentStep := clampStep formPages (Finite importedStep),
                         statusMessage := Some Success\<rparr>)))"

section \<open>Definitions used to state the properties\<close>

subsection \<open>Example forms and states\<close>

definition smallForm :: "FormPage list" where
  \<comment> \<open>a form of two pages with one question each; the fields are \<open>step-0-x\<close> and
      \<open>step-1-y\<close>\<close>
  "smallForm =
     [\<lparr>title = ''Idea'', items = [\<lparr>area = [], question = ''X'', helpText = []\<rparr>]\<rparr>,
      \<lparr>title = ''Mercado'', items = [\<lparr>area = [], question = ''Y'', helpText = []\<rparr>]\<rparr>]"

definition smallState :: AppState where
  \<comment> \<open>the field \<open>step-0-x\<close> is answered, the field \<open>step-1-y\<close> is not\<close>
  "smallState =
     \<lparr>currentStep = 0, answers = [''step-0-x'' \<mapsto> ''existing''], statusMessage = None\<rparr>"

definition tripleForm :: "FormPage list" where
  \<comment> \<open>one page with the three questions of the market sizes\<close>
  "tripleForm =
     [\<lparr>title = ''TAM SAM SOM'',
       items = [\<lparr>area = [], question = ''TAM'', helpText = []\<rparr>,
                \<lparr>area = [], question = ''SAM'', helpText = []\<rparr>,
                \<lparr>area = [], question = ''SOM'', helpText = []\<rparr>]\<rparr>]"




definition encodedEntries :: string where
  \<comment> \<open>the JSON text of an array with one entry\<close>
  "encodedEntries = ''[{\"id\":\"step-0-x\",\"value\":\"v\"}]''"

subsection \<open>The three attempts of the quantitative triple\<close>

definition tierWholeJson :: "string \<Rightarrow> TamSamSom option" where
  \<comment> \<open>the first attempt of \<^verbatim>\<open>parseAiResult\<close>: \<^verbatim>\<open>tryParseJson(trimmed)\<close>\<close>
  "tierWholeJson trimmed = tryParseJson trimmed"

definition tierBraceBlock :: "string \<Rightarrow> TamSamSom option" where
  \<comment> \<open>the second attempt: \<^verbatim>\<open>tryParseJson(blockMatch[0])\<close> when the brace pattern matches\<close>
  "tierBraceBlock trimmed =
     (case braceBlock trimmed of None \<Rightarrow> None | Some blockMatch \<Rightarrow> tryParseJson blockMatch)"

definition tierLabelScan :: "string \<Rightarrow> TamSamSom option" where
  \<comment> \<open>the third attempt: the sections found by the label pattern, when none is empty\<close>
  "tierLabelScan trimmed =
     (let sections = scanSections \<lparr>tam = [], sam = [], som = []\<rparr> trimmed
      in if tam sections \<noteq> [] \<and> sam sections \<noteq> [] \<and> som sections \<noteq> []
         then Some sections
         else None)"

subsection \<open>The text of a chunk\<close>

definition textOfChunk :: "json \<Rightarrow> string" where
  \<comment> \<open>after the words of the specification: the \<open>text\<close> property of a chunk when it is
      present and a string, nothing otherwise\<close>
  "textOfChunk chunk = (case js_get chunk ''text'' of Some (JString s) \<Rightarrow> s | _ \<Rightarrow> [])"

definition asString :: "json \<Rightarrow> string" where
  \<comment> \<open>the characters of a value that is a string\<close>
  "asString v = (case v of JString s \<Rightarrow> s | _ \<Rightarrow> [])"

definition isStringValue :: "json \<Rightarrow> bool" where
  "isStringValue v = (case v of JString s \<Rightarrow> True | _ \<Rightarrow> False)"

definition fragmentOfChunk :: "json \<Rightarrow> string" where
  \<comment> \<open>what a chunk gives: itself when it is a string, its \<open>text\<close> property when that is
      present and a string, nothing otherwise\<close>
  "fragmentOfChunk chunk = (if isStringValue chunk then asString chunk else textOfChunk chunk)"

subsection \<open>The five keys and the second attempt of the fixed object\<close>



subsection \<open>The context after the specification\<close>

definition answeredLines :: "(string \<rightharpoonup> string) \<Rightarrow> nat \<Rightarrow> FormPage \<Rightarrow> string list" where
  \<comment> \<open>after the words of the specification: the non-empty answers of a page, in the
      order of its questions, each as \<open>- question: trimmed value\<close>\<close>
  "answeredLines answersNow i page =
     concat (map (\<lambda>item.
                    case answersNow (makeFieldId (int i) (FormItem.question item)) of
                      None \<Rightarrow> []
                    | Some a \<Rightarrow>
                        if trim a = [] then []
                        else [''- '' @ FormItem.question item @ '': '' @ trim a])
                 (items page))"

definition contextSpec :: "FormPage list \<Rightarrow> (string \<rightharpoonup> string) \<Rightarrow> int \<Rightarrow> string" where
  \<comment> \<open>after the words of the specification: the pages strictly before the bound that
      have a non-empty answer, in the order of the form, each as its title and its lines;
      the fixed phrase when there is none\<close>
  "contextSpec formPages answersNow bound =
     (let contributing =
            filter (\<lambda>ip. int (fst ip) < bound \<and> answeredLines answersNow (fst ip) (snd ip) \<noteq> [])
                   (enumerate 0 formPages)
      in if contributing = [] then noAnswers
         else join [CHR 0x0A, CHR 0x0A]
                (map (\<lambda>ip. title (snd ip) @ '':'' @ [CHR 0x0A] @
                            join [CHR 0x0A] (answeredLines answersNow (fst ip) (snd ip)))
                     contributing))"

subsection \<open>The normalisation with a cap on its re-entries\<close>

function normalizePrefillEntriesCapped ::
  "FormPage list \<Rightarrow> nat \<Rightarrow> json \<Rightarrow> PrefillAnswerEntry list option" where
  \<comment> \<open>after the words of the specification: the routine of the code with a cap on the
      number of times a string is parsed and handed back; the routine of the
      specification is the one with the cap 1\<close>
  "normalizePrefillEntriesCapped formPages cap input =
     (if \<not> truthy input then None
      else
        (case input of
           JArray xs \<Rightarrow>
             (let entries = List.map_filter prefillEntryOf xs
              in if entries = [] then None else Some entries)
         | JObject record \<Rightarrow>
             (case firstNonEmpty
                     (map (\<lambda>key. case map_of record key of
                                    None \<Rightarrow> None
                                  | Some v \<Rightarrow> normalizePrefillEntriesCapped formPages cap v)
                          nestedKeys) of
                Some nested \<Rightarrow> Some nested
              | None \<Rightarrow>
                  (let directEntries = List.map_filter (directEntryOf formPages) record
                   in if directEntries = [] then None else Some directEntries))
         | JString s \<Rightarrow>
             (case cap of
                0 \<Rightarrow> None
              | Suc cap' \<Rightarrow>
                  (case json_parse s of
                     None \<Rightarrow> None
                   | Some parsed \<Rightarrow> normalizePrefillEntriesCapped formPages cap' parsed))
         | _ \<Rightarrow> None))"
  by pat_completeness auto
termination
  by (relation "measure (\<lambda>(formPages, cap, input). jweight input)")
     (auto dest!: map_of_weight json_parse_weight)

declare normalizePrefillEntriesCapped.simps [simp del]

subsection \<open>Objects with distinct keys\<close>

fun distinctKeys :: "json \<Rightarrow> bool" where
  "distinctKeys (JArray xs) = (\<forall>x \<in> set xs. distinctKeys x)"
| "distinctKeys (JObject ms) = (distinct (map fst ms) \<and> (\<forall>kv \<in> set ms. distinctKeys (snd kv)))"
| "distinctKeys _ = True"

fun frameDistinct :: "frame \<Rightarrow> bool" where
  "frameDistinct (FArr els) = (\<forall>x \<in> set els. distinctKeys x)"
| "frameDistinct (FObj ms k) = (distinct (map fst ms) \<and> (\<forall>kv \<in> set ms. distinctKeys (snd kv)))"

fun stateDistinct :: "pstate \<Rightarrow> bool" where
  "stateDistinct (Run st m) = (\<forall>f \<in> set st. frameDistinct f)"
| "stateDistinct (Done v) = distinctKeys v"

subsection \<open>The import after the specification\<close>

definition stringEntry :: "json option \<Rightarrow> string option" where
  \<comment> \<open>the value of an entry when it is a string\<close>
  "stringEntry v = (case v of Some (JString s) \<Rightarrow> Some s | _ \<Rightarrow> None)"

definition importAccepts :: "json \<Rightarrow> bool" where
  \<comment> \<open>the parsed value is an object, not an array, with a property \<open>answers\<close> that is an
      object, an array, a string that is not empty, a number that is not zero or
      \<^verbatim>\<open>true\<close>\<close>
  "importAccepts parsed =
     (case parsed of
        JObject ms \<Rightarrow>
          (case map_of ms ''answers'' of
             None \<Rightarrow> False
           | Some JNull \<Rightarrow> False
           | Some (JBool b) \<Rightarrow> b
           | Some (JNumber n) \<Rightarrow> numValue n \<noteq> Finite 0
           | Some (JString t) \<Rightarrow> t \<noteq> []
           | Some (JArray xs) \<Rightarrow> True
           | Some (JObject es) \<Rightarrow> True)
      | _ \<Rightarrow> False)"

definition answersEntries :: "json \<Rightarrow> (string \<times> json) list" where
  \<comment> \<open>the entries of the property \<open>answers\<close> of the parsed value\<close>
  "answersEntries parsed = propEntries (js_get parsed ''answers'')"

definition importedStep :: "FormPage list \<Rightarrow> json \<Rightarrow> rat" where
  \<comment> \<open>after the words of the specification: the imported step clamped into the range of
      the steps, from the first step to the summary step, when it is a number, the first
      step otherwise\<close>
  "importedStep formPages parsed =
     (case js_get parsed ''currentStep'' of
        Some (JNumber n) \<Rightarrow>
          (case numValue n of
             Finite x \<Rightarrow>
               if x < 0 then 0
               else if of_int (summaryStepIndex formPages) < x then of_int (summaryStepIndex formPages)
               else x
           | PlusInfinity \<Rightarrow> of_int (summaryStepIndex formPages)
           | MinusInfinity \<Rightarrow> 0)
      | _ \<Rightarrow> 0)"

section \<open>C1: the merge that fills empty fields only\<close>

text \<open>The entries that an extractor returns come from its input, and an update changes the
  key it names only.\<close>

lemma updateKey_set: "(k, v) \<in> set (updateKey k' v' ms) \<Longrightarrow> (k, v) = (k', v') \<or> (k, v) \<in> set ms"
  by (induction ms) (auto split: if_splits)

lemma insertIndexKey_set:
  "(k, v) \<in> set (insertIndexKey k' v' ms) \<Longrightarrow> (k, v) = (k', v') \<or> (k, v) \<in> set ms"
  by (induction ms) (auto split: if_splits)

lemma js_put_set: "(k, v) \<in> set (js_put k' v' ms) \<Longrightarrow> (k, v) = (k', v') \<or> (k, v) \<in> set ms"
  by (auto simp: js_put_def dest: updateKey_set insertIndexKey_set split: if_splits)

lemma foldl_js_put_set:
  "(k, v) \<in> set (foldl (\<lambda>acc e. js_put (f e) (g e) acc) acc0 es) \<Longrightarrow>
     (k, v) \<in> set acc0 \<or> (\<exists>e \<in> set es. k = f e \<and> v = g e)"
proof (induction es arbitrary: acc0)
  case Nil
  then show ?case by simp
next
  case (Cons e es)
  from Cons.IH [of "js_put (f e) (g e) acc0"] Cons.prems
  have "(k, v) \<in> set (js_put (f e) (g e) acc0) \<or> (\<exists>e \<in> set es. k = f e \<and> v = g e)" by simp
  then show ?case using js_put_set [of k v "f e" "g e" acc0] by auto
qed

lemma validateEntries_valid:
  assumes "validateEntries formPages entries = Inr updates" and "(k, v) \<in> set updates"
  shows "k \<in> validFieldIdSet formPages \<and> v \<noteq> [] \<and>
         (\<exists>e \<in> set entries. fieldId e = k \<and> trim (entryValue e) = v)"
proof -
  from assms(1) have u: "updates = entriesToAnswerMap (recognizedEntries formPages entries)"
    by (auto simp: validateEntries_def Let_def split: if_splits)
  with assms(2) foldl_js_put_set [of k v fieldId "\<lambda>e. trim (entryValue e)" "[]" "recognizedEntries formPages entries"]
  obtain e where "e \<in> set (recognizedEntries formPages entries)" "k = fieldId e" "v = trim (entryValue e)"
    by (auto simp: entriesToAnswerMap_def)
  then show ?thesis by (auto simp: recognizedEntries_def)
qed

lemma applyPrefillResult_valid:
  assumes "applyPrefillResult formPages text = Inr updates" and "(k, v) \<in> set updates"
  shows "k \<in> validFieldIdSet formPages \<and> v \<noteq> []"
proof -
  from assms(1) obtain entries where "validateEntries formPages entries = Inr updates"
    by (auto simp: applyPrefillResult_def Let_def split: if_splits option.splits)
  from validateEntries_valid [OF this assms(2)] show ?thesis by simp
qed

lemma objectAssign_changed:
  "objectAssign prev entries k \<noteq> prev k \<Longrightarrow>
     \<exists>v. (k, v) \<in> set entries \<and> objectAssign prev entries k = Some v"
proof (induction entries arbitrary: prev)
  case Nil
  then show ?case by (simp add: objectAssign_def)
next
  case (Cons e es)
  have step: "objectAssign prev (e # es) = objectAssign (prev(fst e \<mapsto> snd e)) es"
    by (simp add: objectAssign_def)
  show ?case
  proof (cases "objectAssign (prev(fst e \<mapsto> snd e)) es k = (prev(fst e \<mapsto> snd e)) k")
    case True
    with Cons.prems step have "k = fst e" by (auto split: if_splits)
    with True step show ?thesis by (cases e) auto
  next
    case False
    from Cons.IH [OF False] obtain v where
      "(k, v) \<in> set es" "objectAssign (prev(fst e \<mapsto> snd e)) es k = Some v" by blast
    then have "(k, v) \<in> set (e # es) \<and> objectAssign prev (e # es) k = Some v"
      by (simp only: step list.set insert_iff simp_thms)
    then show ?thesis by blast
  qed
qed

lemma mergePrefill_only_blank:
  assumes "mergePrefill answersSeen st updates = Inr st'" and "answers st' k \<noteq> answers st k"
  shows "isBlank (answersSeen k) \<and> (\<exists>v. (k, v) \<in> set updates \<and> trim v \<noteq> [] \<and> answers st' k = Some v)"
proof -
  from assms(1) have a: "answers st' = objectAssign (answers st) (sanitizedEntries answersSeen updates)"
    by (auto simp: mergePrefill_def Let_def split: if_splits)
  with assms(2) objectAssign_changed [of "answers st" "sanitizedEntries answersSeen updates" k]
  obtain v where "(k, v) \<in> set (sanitizedEntries answersSeen updates)" "answers st' k = Some v"
    by auto
  then show ?thesis by (auto simp: sanitizedEntries_def)
qed

text \<open>
  What the handler does for every map that it closed over, \<open>answersSeen\<close>: an answer
  differs after the reply has been handled only for a key that is a field of the form,
  for which \<open>answersSeen\<close> held no value or a blank one, and the new value is not blank.
  When the validated updates leave no entry after the filter, the merge fails with
  \<open>NoFieldsFilled\<close>, and the state is the old one but for the status message that reports
  the failure.
\<close>

lemma prefill_fills_blank_of_captured:
  "(\<forall>k. answers (handlePrefillReply formPages answersSeen st aiText) k \<noteq> answers st k \<longrightarrow>
        isBlank (answersSeen k) \<and> k \<in> validFieldIdSet formPages \<and>
        (\<exists>v. answers (handlePrefillReply formPages answersSeen st aiText) k = Some v \<and> trim v \<noteq> []))
   \<and> (applyPrefillResult formPages aiText = Inr updates \<and>
        sanitizedEntries answersSeen updates = [] \<longrightarrow>
        mergePrefill answersSeen st updates = Inl NoFieldsFilled \<and>
        handlePrefillReply formPages answersSeen st aiText =
          st\<lparr>statusMessage := Some (Failure NoFieldsFilled)\<rparr>)"
proof (intro conjI allI impI)
  fix k
  assume ch: "answers (handlePrefillReply formPages answersSeen st aiText) k \<noteq> answers st k"
  let ?st' = "handlePrefillReply formPages answersSeen st aiText"
  from ch obtain updates' where ap: "applyPrefillResult formPages aiText = Inr updates'"
    and mp: "mergePrefill answersSeen st updates' = Inr ?st'"
    by (auto simp: handlePrefillReply_def split: if_splits sum.splits)
  from mergePrefill_only_blank [OF mp ch] obtain v where
    b: "isBlank (answersSeen k)" and v: "(k, v) \<in> set updates'" "trim v \<noteq> []" "answers ?st' k = Some v"
    by auto
  from applyPrefillResult_valid [OF ap v(1)] have "k \<in> validFieldIdSet formPages" by simp
  with b v show "isBlank (answersSeen k)" "k \<in> validFieldIdSet formPages"
    "\<exists>v. answers ?st' k = Some v \<and> trim v \<noteq> []" by auto
next
  assume a: "applyPrefillResult formPages aiText = Inr updates \<and>
        sanitizedEntries answersSeen updates = []"
  then have ne: "trim aiText \<noteq> []"
    by (auto simp: applyPrefillResult_def Let_def split: if_splits)
  from a show m: "mergePrefill answersSeen st updates = Inl NoFieldsFilled"
    by (simp add: mergePrefill_def)
  from a ne m show "handlePrefillReply formPages answersSeen st aiText =
          st\<lparr>statusMessage := Some (Failure NoFieldsFilled)\<rparr>"
    by (simp add: handlePrefillReply_def)
qed

text \<open>
  When the handler runs on the Answer Map that it closed over, nothing that is answered
  is written: in the state where \<open>step-0-x\<close> is answered, a reply for both fields fills
  \<open>step-1-y\<close> only, and a reply for \<open>step-0-x\<close> alone fails with \<open>NoFieldsFilled\<close>.
\<close>

lemma prefill_current_map_example:
  \<open>answers (handlePrefillReply smallForm (answers smallState) smallState
      ''{"step-0-x":"new","step-1-y":"new"}'') ''step-1-y'' = Some ''new'' \<and>
   answers (handlePrefillReply smallForm (answers smallState) smallState
      ''{"step-0-x":"new","step-1-y":"new"}'') ''step-0-x'' = Some ''existing'' \<and>
   statusMessage (handlePrefillReply smallForm (answers smallState) smallState
      ''{"step-0-x":"new"}'') = Some (Failure NoFieldsFilled)\<close>
  by code_simp

text \<open>
  Claim C1 says that an entry is written only if the Answer Map currently holds no
  non-empty value for its key.  The filter of \<^verbatim>\<open>handlePrefillWithAi\<close> reads the map that
  the callback closed over when it was created, before the two \<^verbatim>\<open>await\<close>s of the request,
  and \<^verbatim>\<open>setAnswers\<close> writes over the answers of the moment.  Here the handler was created
  when no field was answered, and \<open>step-0-x\<close> has been answered while the request was
  pending: the Answer Map holds \<open>existing\<close> for \<open>step-0-x\<close>, the only entry of the reply is
  for that key, and the handler writes \<open>new\<close> over it and reports a success, where the
  claim asks for \<open>NoFieldsFilled\<close> and an Answer Map left as it was.
\<close>

theorem fill_empty_only_stale_capture:
  \<open>answers smallState ''step-0-x'' = Some ''existing'' \<and>
   applyPrefillResult smallForm ''{"step-0-x":"new"}'' = Inr [(''step-0-x'', ''new'')] \<and>
   sanitizedEntries (answers smallState) [(''step-0-x'', ''new'')] = [] \<and>
   answers (handlePrefillReply smallForm Map.empty smallState ''{"step-0-x":"new"}'') ''step-0-x'' =
     Some ''new'' \<and>
   statusMessage (handlePrefillReply smallForm Map.empty smallState ''{"step-0-x":"new"}'') =
     Some Success\<close>
  by code_simp

section \<open>C2: the tiers of the quantitative triple\<close>






section \<open>C3: the examples of the quantitative triple\<close>

lemma map_of_updateKey: "map_of (updateKey k v ms) = (map_of ms)(k \<mapsto> v)"
  by (induction ms) auto

lemma map_of_insertIndexKey:
  "k \<notin> set (map fst ms) \<Longrightarrow> map_of (insertIndexKey k v ms) = (map_of ms)(k \<mapsto> v)"
  by (induction ms) (auto simp: fun_upd_twist)

lemma map_of_js_put: "map_of (js_put k v ms) = (map_of ms)(k \<mapsto> v)"
  by (simp add: js_put_def map_of_updateKey map_of_insertIndexKey)

lemma tryParseJson_empty_slot:
  assumes "json_parse raw = Some v"
    and "asText (orElse (js_get v ''tam'') (js_get v ''TAM'')) = [] \<or>
         asText (orElse (js_get v ''sam'') (js_get v ''SAM'')) = [] \<or>
         asText (orElse (js_get v ''som'') (js_get v ''SOM'')) = []"
  shows "tryParseJson raw = None"
  using assms by (auto simp: tryParseJson_def Let_def)

lemma parse_triple_json:
  \<open>parseAiResult ''{"tam":"100","sam":"50","som":"10"}'' =
     Some \<lparr>tam = ''100'', sam = ''50'', som = ''10''\<rparr>\<close>
  by code_simp

lemma parse_triple_labels:
  \<open>tierWholeJson (trim (''TAM: 100'' @ [CHR 0x0A] @ ''SAM: 50'' @ [CHR 0x0A] @ ''SOM: 10'')) = None \<and>
   tierBraceBlock (trim (''TAM: 100'' @ [CHR 0x0A] @ ''SAM: 50'' @ [CHR 0x0A] @ ''SOM: 10'')) = None \<and>
   tierLabelScan (trim (''TAM: 100'' @ [CHR 0x0A] @ ''SAM: 50'' @ [CHR 0x0A] @ ''SOM: 10'')) =
     Some \<lparr>tam = ''100'', sam = ''50'', som = ''10''\<rparr> \<and>
   parseAiResult (''TAM: 100'' @ [CHR 0x0A] @ ''SAM: 50'' @ [CHR 0x0A] @ ''SOM: 10'') =
     Some \<lparr>tam = ''100'', sam = ''50'', som = ''10''\<rparr>\<close>
  by code_simp

lemma parse_triple_missing:
  \<open>parseAiResult ''{"tam":"100","sam":"50"}'' = None\<close>
  by code_simp

lemma triple_positional:
  assumes p: "parseAiResult text = Some \<lparr>tam = t, sam = s, som = m\<rparr>"
    and len: "3 \<le> length (itemIds formPages stepIndex)"
    and dist: "distinct (take 3 (itemIds formPages stepIndex))"
  shows "\<exists>upd. applyTamSamSomResult formPages text stepIndex = Inr upd \<and>
           dom (map_of upd) = set (take 3 (itemIds formPages stepIndex)) \<and>
           map_of upd (itemIds formPages stepIndex ! 0) = Some t \<and>
           map_of upd (itemIds formPages stepIndex ! 1) = Some s \<and>
           map_of upd (itemIds formPages stepIndex ! 2) = Some m"
proof -
  let ?ids = "itemIds formPages stepIndex"
  let ?upd = "js_put (?ids ! 2) m (js_put (?ids ! 1) s (js_put (?ids ! 0) t []))"
  from len obtain a b c rest where ids: "?ids = a # b # c # rest"
    by (cases ?ids; cases "tl ?ids"; cases "tl (tl ?ids)") auto
  with dist have d: "a \<noteq> b" "a \<noteq> c" "b \<noteq> c" by auto
  from p len have r: "applyTamSamSomResult formPages text stepIndex = Inr ?upd"
    by (simp add: applyTamSamSomResult_def Let_def)
  have "map_of ?upd = [a \<mapsto> t, b \<mapsto> s, c \<mapsto> m]"
    by (simp add: map_of_js_put ids)
  with d have m: "map_of ?upd (?ids ! 0) = Some t" "map_of ?upd (?ids ! 1) = Some s"
    "map_of ?upd (?ids ! 2) = Some m"
    by (simp_all add: ids)
  have k: "dom (map_of ?upd) = set (take 3 ?ids)"
    by (auto simp: map_of_js_put ids)
  from r m k show ?thesis by blast
qed

text \<open>
  The two replies of the specification.  When the target page has three questions or
  more and the identifiers of the first three differ, the reply
  \<^verbatim>\<open>{"tam":"100","sam":"50","som":"10"}\<close> gives an update of exactly these three fields, in
  the order of the page, with the values 100, 50 and 10; the reply of three labelled
  lines gives the same update, by the label scan, after both JSON tiers have failed.
  The reply \<^verbatim>\<open>{"tam":"100","sam":"50"}\<close>, without its third slot, fails.
\<close>

lemma triple_examples:
  \<open>(3 \<le> length (itemIds formPages stepIndex) \<and> distinct (take 3 (itemIds formPages stepIndex)) \<longrightarrow>
      (\<exists>upd. applyTamSamSomResult formPages ''{"tam":"100","sam":"50","som":"10"}'' stepIndex = Inr upd \<and>
         applyTamSamSomResult formPages
           (''TAM: 100'' @ [CHR 0x0A] @ ''SAM: 50'' @ [CHR 0x0A] @ ''SOM: 10'') stepIndex = Inr upd \<and>
         dom (map_of upd) = set (take 3 (itemIds formPages stepIndex)) \<and>
         map_of upd (itemIds formPages stepIndex ! 0) = Some ''100'' \<and>
         map_of upd (itemIds formPages stepIndex ! 1) = Some ''50'' \<and>
         map_of upd (itemIds formPages stepIndex ! 2) = Some ''10''))
   \<and> tierWholeJson (trim (''TAM: 100'' @ [CHR 0x0A] @ ''SAM: 50'' @ [CHR 0x0A] @ ''SOM: 10'')) = None
   \<and> tierBraceBlock (trim (''TAM: 100'' @ [CHR 0x0A] @ ''SAM: 50'' @ [CHR 0x0A] @ ''SOM: 10'')) = None
   \<and> applyTamSamSomResult formPages ''{"tam":"100","sam":"50"}'' stepIndex = Inl ExtractionFailed\<close>
proof (intro conjI impI)
  assume a: "3 \<le> length (itemIds formPages stepIndex) \<and> distinct (take 3 (itemIds formPages stepIndex))"
  from triple_positional [OF parse_triple_json] a obtain upd where
    u: \<open>applyTamSamSomResult formPages ''{"tam":"100","sam":"50","som":"10"}'' stepIndex = Inr upd\<close>
      "dom (map_of upd) = set (take 3 (itemIds formPages stepIndex))"
      "map_of upd (itemIds formPages stepIndex ! 0) = Some ''100''"
      "map_of upd (itemIds formPages stepIndex ! 1) = Some ''50''"
      "map_of upd (itemIds formPages stepIndex ! 2) = Some ''10''"
    by blast
  from parse_triple_json parse_triple_labels
  have "applyTamSamSomResult formPages
           (''TAM: 100'' @ [CHR 0x0A] @ ''SAM: 50'' @ [CHR 0x0A] @ ''SOM: 10'') stepIndex =
        applyTamSamSomResult formPages ''{\"tam\":\"100\",\"sam\":\"50\",\"som\":\"10\"}'' stepIndex"
    by (simp only: applyTamSamSomResult_def)
  with u show \<open>\<exists>upd. applyTamSamSomResult formPages ''{"tam":"100","sam":"50","som":"10"}'' stepIndex = Inr upd \<and>
         applyTamSamSomResult formPages
           (''TAM: 100'' @ [CHR 0x0A] @ ''SAM: 50'' @ [CHR 0x0A] @ ''SOM: 10'') stepIndex = Inr upd \<and>
         dom (map_of upd) = set (take 3 (itemIds formPages stepIndex)) \<and>
         map_of upd (itemIds formPages stepIndex ! 0) = Some ''100'' \<and>
         map_of upd (itemIds formPages stepIndex ! 1) = Some ''50'' \<and>
         map_of upd (itemIds formPages stepIndex ! 2) = Some ''10''\<close>
    by auto
next
  show "tierWholeJson (trim (''TAM: 100'' @ [CHR 0x0A] @ ''SAM: 50'' @ [CHR 0x0A] @ ''SOM: 10'')) = None"
    using parse_triple_labels by blast
  show "tierBraceBlock (trim (''TAM: 100'' @ [CHR 0x0A] @ ''SAM: 50'' @ [CHR 0x0A] @ ''SOM: 10'')) = None"
    using parse_triple_labels by blast
next
  show \<open>applyTamSamSomResult formPages ''{"tam":"100","sam":"50"}'' stepIndex = Inl ExtractionFailed\<close>
    by (simp add: applyTamSamSomResult_def parse_triple_missing)
qed

text \<open>
  Claim C3 says that every input with one of the three slots missing or empty after
  coercion yields an extraction failure.  Both JSON tiers of \<^verbatim>\<open>parseAiResult\<close> test
  \<^verbatim>\<open>tam && sam && som\<close> and reject such a reply, but the label scan then runs on the raw
  text of the reply, where the label pattern matches the keys of the JSON object.  In
  this reply the slot \<open>som\<close> is the empty string (in the second one it is \<^verbatim>\<open>null\<close>): the
  extraction does not fail, and pieces of the JSON syntax are written to the three
  fields.
\<close>

theorem tam_sam_som_empty_slot_fragments:
  \<open>json_parse ''{"tam":"100","sam":"50","som":""}'' =
     Some (JObject [(''tam'', JString ''100''), (''sam'', JString ''50''), (''som'', JString [])]) \<and>
   asText (js_get (JObject [(''tam'', JString ''100''), (''sam'', JString ''50''), (''som'', JString [])])
             ''som'') = [] \<and>
   tryParseJson ''{"tam":"100","sam":"50","som":""}'' = None \<and>
   parseAiResult ''{"tam":"100","sam":"50","som":""}'' =
     Some \<lparr>tam = ''"100","'', sam = ''"50","'', som = ''""}''\<rparr> \<and>
   applyTamSamSomResult tripleForm ''{"tam":"100","sam":"50","som":""}'' 0 =
     Inr [(''step-0-tam'', ''"100","''), (''step-0-sam'', ''"50","''), (''step-0-som'', ''""}'')] \<and>
   applyTamSamSomResult tripleForm ''{"tam":"100","sam":"50","som":null}'' 0 =
     Inr [(''step-0-tam'', ''"100","''), (''step-0-sam'', ''"50","''), (''step-0-som'', ''null}'')]\<close>
  by code_simp

section \<open>C4: the content flattener\<close>

lemma chunkText_fragment: "chunkText c = fragmentOfChunk c"
  by (cases c)
     (auto simp: chunkText_def fragmentOfChunk_def textOfChunk_def isStringValue_def asString_def
           split: option.splits json.splits)

text \<open>
  Claim C4, as the code has it.  \<^verbatim>\<open>extractMessageContent\<close> is a function from every value
  to a string, with no failure.  A string is returned unchanged.  An array gives, for
  each of its chunks, the chunk itself when it is a string and the string \<open>text\<close> property
  of the chunk otherwise, when there is one; the empty fragments are left out, the others
  are in the order of the chunks and joined by one line feed.  So the two chunks with the
  texts a and b give the two lines a and b, and so do the string a followed by the chunk
  with the text b.  The empty array, \<^verbatim>\<open>null\<close>, an object, a number and a boolean give the
  empty string.
\<close>

theorem extractMessageContent_flatten:
  "extractMessageContent (JString s) = s
   \<and> extractMessageContent (JArray chunks) =
       join [CHR 0x0A] (filter (\<lambda>t. t \<noteq> []) (map fragmentOfChunk chunks))
   \<and> extractMessageContent
        (JArray [JObject [(''text'', JString ''a'')], JObject [(''text'', JString ''b'')]]) =
        ''a'' @ [CHR 0x0A] @ ''b''
   \<and> extractMessageContent (JArray [JString ''a'', JObject [(''text'', JString ''b'')]]) =
        ''a'' @ [CHR 0x0A] @ ''b''
   \<and> extractMessageContent (JArray []) = []
   \<and> extractMessageContent JNull = []
   \<and> extractMessageContent (JObject ms) = []
   \<and> extractMessageContent (JNumber n) = []
   \<and> extractMessageContent (JBool b) = []"
proof (intro conjI)
  have m: "map chunkText chunks = map fragmentOfChunk chunks"
    by (simp add: chunkText_fragment)
  show "extractMessageContent (JArray chunks) =
          join [CHR 0x0A] (filter (\<lambda>t. t \<noteq> []) (map fragmentOfChunk chunks))"
    by (simp add: extractMessageContent_def m)
next
  show "extractMessageContent
        (JArray [JObject [(''text'', JString ''a'')], JObject [(''text'', JString ''b'')]]) =
        ''a'' @ [CHR 0x0A] @ ''b''"
    by (simp add: extractMessageContent_def chunkText_def)
next
  show "extractMessageContent (JArray [JString ''a'', JObject [(''text'', JString ''b'')]]) =
        ''a'' @ [CHR 0x0A] @ ''b''"
    by (simp add: extractMessageContent_def chunkText_def)
qed (simp_all add: extractMessageContent_def)

theorem extractMessageContent_flatten_witness:
  \<open>json_parse ''["x",{"text":"a"},{"type":"image"},null,"",{"text":""},{"text":"b"},7]'' =
     Some (JArray [JString ''x'', JObject [(''text'', JString ''a'')],
                   JObject [(''type'', JString ''image'')], JNull, JString [],
                   JObject [(''text'', JString [])], JObject [(''text'', JString ''b'')],
                   JNumber (Dec 7 0)]) \<and>
   extractMessageContent
     (JArray [JString ''x'', JObject [(''text'', JString ''a'')],
              JObject [(''type'', JString ''image'')], JNull, JString [],
              JObject [(''text'', JString [])], JObject [(''text'', JString ''b'')],
              JNumber (Dec 7 0)]) =
     ''x'' @ [CHR 0x0A] @ ''a'' @ [CHR 0x0A] @ ''b''\<close>
proof -
  let ?chunks = "[JString ''x'', JObject [(''text'', JString ''a'')],
              JObject [(''type'', JString ''image'')], JNull, JString [],
              JObject [(''text'', JString [])], JObject [(''text'', JString ''b'')],
              JNumber (Dec 7 0)]"
  have p: \<open>json_parse ''["x",{"text":"a"},{"type":"image"},null,"",{"text":""},{"text":"b"},7]'' =
     Some (JArray ?chunks)\<close>
    by code_simp
  have e: "join [CHR 0x0A] (filter (\<lambda>t. t \<noteq> []) (map fragmentOfChunk ?chunks)) =
             ''x'' @ [CHR 0x0A] @ ''a'' @ [CHR 0x0A] @ ''b''"
    by (simp add: fragmentOfChunk_def textOfChunk_def isStringValue_def asString_def)
  from extractMessageContent_flatten [of "[]" ?chunks "[]" "Dec 0 0" True] e p
  show ?thesis by simp
qed

text \<open>
  The claim as it is written fails for an array with an element that is a string: the
  claim takes the \<open>text\<close> property of every chunk, and a string has none, so that the
  string would give nothing; the function returns the string itself.
\<close>

theorem extractMessageContent_bare_string_counterexample:
  "extractMessageContent (JArray [JString ''a'']) = ''a'' \<and>
   join [CHR 0x0A] (filter (\<lambda>t. t \<noteq> []) (map textOfChunk [JString ''a''])) = [] \<and>
   extractMessageContent (JArray [JString ''a'', JObject [(''text'', JString ''b'')]]) =
     ''a'' @ [CHR 0x0A] @ ''b'' \<and>
   join [CHR 0x0A] (filter (\<lambda>t. t \<noteq> [])
     (map textOfChunk [JString ''a'', JObject [(''text'', JString ''b'')]])) = ''b''"
  by (simp add: extractMessageContent_def chunkText_def textOfChunk_def)

section \<open>C5: the fixed object of the five forces\<close>







section \<open>C6: the table of competitors\<close>










section \<open>C7: the context builder\<close>

lemma map_filter_concat:
  "List.map_filter f xs = concat (map (\<lambda>x. case f x of None \<Rightarrow> [] | Some y \<Rightarrow> [y]) xs)"
  by (induction xs) (auto simp: List.map_filter_simps split: option.splits)

lemma context_entries:
  "List.map_filter (contextEntry answersNow (int i)) (items page) = answeredLines answersNow i page"
proof -
  have "(\<lambda>item. case contextEntry answersNow (int i) item of None \<Rightarrow> [] | Some y \<Rightarrow> [y]) =
        (\<lambda>item. case answersNow (makeFieldId (int i) (FormItem.question item)) of
                      None \<Rightarrow> []
                    | Some a \<Rightarrow>
                        if trim a = [] then []
                        else [''- '' @ FormItem.question item @ '': '' @ trim a])"
    by (rule ext) (simp add: contextEntry_def split: option.splits)
  then show ?thesis by (simp add: map_filter_concat answeredLines_def)
qed

lemma contextSection_eq:
  "contextSection answersNow ip =
     (if answeredLines answersNow (fst ip) (snd ip) = [] then None
      else Some (title (snd ip) @ '':'' @ [CHR 0x0A] @
                 join [CHR 0x0A] (answeredLines answersNow (fst ip) (snd ip))))"
  by (simp add: contextSection_def context_entries Let_def)

lemma map_filter_sections:
  "List.map_filter (contextSection answersNow) ips =
     map (\<lambda>ip. title (snd ip) @ '':'' @ [CHR 0x0A] @
                 join [CHR 0x0A] (answeredLines answersNow (fst ip) (snd ip)))
         (filter (\<lambda>ip. answeredLines answersNow (fst ip) (snd ip) \<noteq> []) ips)"
  by (induction ips) (simp_all add: List.map_filter_simps contextSection_eq)

lemma enumerate_take_filter:
  "enumerate n (take (k - n) xs) = filter (\<lambda>ip. fst ip < k) (enumerate n xs)"
proof (induction xs arbitrary: n)
  case Nil
  then show ?case by simp
next
  case (Cons x xs)
  show ?case
  proof (cases "n < k")
    case True
    then have "k - n = Suc (k - Suc n)" by simp
    with True Cons.IH [of "Suc n"] show ?thesis by simp
  next
    case False
    then have "k - n = 0" "k - Suc n = 0" by simp_all
    with False Cons.IH [of "Suc n"] show ?thesis by simp
  qed
qed

lemma join_nonempty: "xs \<noteq> [] \<Longrightarrow> hd xs \<noteq> [] \<Longrightarrow> join sep xs \<noteq> []"
  by (cases "(sep, xs)" rule: join.cases) auto

lemma noAnswers_nonempty: "noAnswers \<noteq> []"
  by (simp add: noAnswers_def)

lemma buildBusinessContext_spec:
  "buildBusinessContext formPages answersNow bound = contextSpec formPages answersNow bound"
proof (cases "bound \<le> 0")
  case True
  then have "filter (\<lambda>ip. int (fst ip) < bound \<and> answeredLines answersNow (fst ip) (snd ip) \<noteq> [])
               (enumerate 0 formPages) = []"
    by (auto simp: filter_empty_conv)
  with True show ?thesis by (simp add: buildBusinessContext_def contextSpec_def)
next
  case False
  have lt: "(\<lambda>ip :: nat \<times> FormPage. fst ip < nat bound) = (\<lambda>ip. int (fst ip) < bound)"
    using False by (intro ext) auto
  have "enumerate 0 (take (nat bound) formPages) =
        filter (\<lambda>ip. int (fst ip) < bound) (enumerate 0 formPages)"
    using enumerate_take_filter [of 0 "nat bound" formPages] by (simp add: lt)
  then have "List.map_filter (contextSection answersNow) (enumerate 0 (take (nat bound) formPages)) =
     map (\<lambda>ip. title (snd ip) @ '':'' @ [CHR 0x0A] @
                 join [CHR 0x0A] (answeredLines answersNow (fst ip) (snd ip)))
         (filter (\<lambda>ip. int (fst ip) < bound \<and> answeredLines answersNow (fst ip) (snd ip) \<noteq> [])
                 (enumerate 0 formPages))"
    by (simp add: map_filter_sections conj_commute)
  with False show ?thesis
    by (simp add: buildBusinessContext_def contextSpec_def Let_def)
qed

lemma contextSpec_nonempty: "contextSpec formPages answersNow bound \<noteq> []"
proof -
  let ?c = "filter (\<lambda>ip. int (fst ip) < bound \<and> answeredLines answersNow (fst ip) (snd ip) \<noteq> [])
                   (enumerate 0 formPages)"
  let ?f = "\<lambda>ip. title (snd ip) @ '':'' @ [CHR 0x0A] @
                            join [CHR 0x0A] (answeredLines answersNow (fst ip) (snd ip))"
  show ?thesis
  proof (cases "?c = []")
    case True
    then show ?thesis by (simp add: contextSpec_def noAnswers_nonempty)
  next
    case False
    then have "map ?f ?c \<noteq> []" by simp
    moreover have "hd (map ?f ?c) \<noteq> []" using False by (simp add: hd_map)
    ultimately have "join [CHR 0x0A, CHR 0x0A] (map ?f ?c) \<noteq> []" by (rule join_nonempty)
    with False show ?thesis by (simp add: contextSpec_def Let_def)
  qed
qed

lemma answeredLines_blank:
  assumes "\<forall>k. isBlank (answersNow k)"
  shows "answeredLines answersNow i page = []"
proof -
  have "(case answersNow k of
           None \<Rightarrow> []
         | Some a \<Rightarrow> if trim a = [] then [] else [f a]) = []" for k and f :: "string \<Rightarrow> string"
    using assms [rule_format, of k] by (auto simp: isBlank_def split: option.splits)
  then show ?thesis by (simp add: answeredLines_def)
qed

text \<open>
  Claim C7.  \<^verbatim>\<open>buildBusinessContext\<close> is a function of the form, the Answer Map and the
  bound: its text is that of the specification, made of the pages strictly before the
  bound that have a non-empty answer, in the order of the form, each as its title
  followed by its non-empty answers in the order of the questions, each as
  \<open>- question: trimmed value\<close>.  The text is never empty; it is the fixed phrase when the
  bound is zero or less and when no answer is non-empty.
\<close>

theorem buildBusinessContext_correct:
  "buildBusinessContext formPages answersNow bound = contextSpec formPages answersNow bound
   \<and> buildBusinessContext formPages answersNow bound \<noteq> []
   \<and> (bound \<le> 0 \<longrightarrow> buildBusinessContext formPages answersNow bound = noAnswers)
   \<and> ((\<forall>k. isBlank (answersNow k)) \<longrightarrow> buildBusinessContext formPages answersNow bound = noAnswers)"
proof (intro conjI impI)
  show "buildBusinessContext formPages answersNow bound = contextSpec formPages answersNow bound"
    by (rule buildBusinessContext_spec)
  show "buildBusinessContext formPages answersNow bound \<noteq> []"
    by (simp add: buildBusinessContext_spec contextSpec_nonempty)
next
  assume "bound \<le> 0"
  then show "buildBusinessContext formPages answersNow bound = noAnswers"
    by (simp add: buildBusinessContext_def)
next
  assume "\<forall>k. isBlank (answersNow k)"
  then have "\<And>ip. answeredLines answersNow (fst ip) (snd ip) = []"
    by (simp add: answeredLines_blank)
  then show "buildBusinessContext formPages answersNow bound = noAnswers"
    by (simp add: buildBusinessContext_spec contextSpec_def)
qed

theorem buildBusinessContext_correct_witness:
  "buildBusinessContext smallForm [''step-0-x'' \<mapsto> '' Acme '', ''step-1-y'' \<mapsto> ''5''] 2 =
     ''Idea:'' @ [CHR 0x0A] @ ''- X: Acme'' @ [CHR 0x0A, CHR 0x0A] @ ''Mercado:'' @ [CHR 0x0A] @ ''- Y: 5''
   \<and> contextSpec smallForm [''step-0-x'' \<mapsto> '' Acme '', ''step-1-y'' \<mapsto> ''5''] 1 =
     ''Idea:'' @ [CHR 0x0A] @ ''- X: Acme''
   \<and> buildBusinessContext smallForm [''step-0-x'' \<mapsto> '' Acme '', ''step-1-y'' \<mapsto> ''5''] 0 = noAnswers
   \<and> buildBusinessContext smallForm Map.empty 2 = noAnswers"
proof -
  let ?a = "[''step-0-x'' \<mapsto> '' Acme '', ''step-1-y'' \<mapsto> ''5'']"
  have two: "buildBusinessContext smallForm ?a 2 =
     ''Idea:'' @ [CHR 0x0A] @ ''- X: Acme'' @ [CHR 0x0A, CHR 0x0A] @ ''Mercado:'' @ [CHR 0x0A] @ ''- Y: 5''"
    by code_simp
  have one: "buildBusinessContext smallForm ?a 1 = ''Idea:'' @ [CHR 0x0A] @ ''- X: Acme''"
    by code_simp
  have z: "(0::int) \<le> 0" by simp
  have e: "\<forall>k. isBlank ((Map.empty :: string \<rightharpoonup> string) k)" by (simp add: isBlank_def)
  from buildBusinessContext_correct [of smallForm ?a 1] one
  have s: "contextSpec smallForm ?a 1 = ''Idea:'' @ [CHR 0x0A] @ ''- X: Acme''" by simp
  from buildBusinessContext_correct [of smallForm ?a 0] z
  have n: "buildBusinessContext smallForm ?a 0 = noAnswers" by blast
  from buildBusinessContext_correct [of smallForm Map.empty 2] e
  have m: "buildBusinessContext smallForm Map.empty 2 = noAnswers" by blast
  from two s n m show ?thesis by blast
qed

section \<open>C8: strings handed back to the normalisation\<close>

lemma normalize_string:
  "normalizePrefillEntries formPages (JString s) =
     (if s = [] then None
      else (case json_parse s of
              None \<Rightarrow> None
            | Some parsed \<Rightarrow> normalizePrefillEntries formPages parsed))"
  by (subst normalizePrefillEntries.simps) simp

lemma reparse_smaller: "json_parse s = Some parsed \<Longrightarrow> jweight parsed < jweight (JString s)"
  using json_parse_weight [of s parsed] by simp

lemma nested_smaller: "map_of ms key = Some v \<Longrightarrow> jweight v < jweight (JObject ms)"
  using map_of_weight [of ms key v] by simp

text \<open>
  Claim C8, as the code has it.  A string handed to \<^verbatim>\<open>normalizePrefillEntries\<close> is parsed
  as JSON and the parsed value is handed to the same routine, with no cap on the number
  of such re-entries.  The routine terminates on every input all the same, because a
  parsed value is strictly smaller than the string it was parsed from, and a property of
  an object is strictly smaller than the object: the number of re-entries is bounded by
  the size of the input, not by one.
\<close>

theorem normalize_reentry_terminates:
  "normalizePrefillEntries formPages (JString s) =
     (if s = [] then None
      else (case json_parse s of
              None \<Rightarrow> None
            | Some parsed \<Rightarrow> normalizePrefillEntries formPages parsed))
   \<and> (json_parse s = Some p \<longrightarrow> jweight p < jweight (JString s))
   \<and> (map_of ms key = Some v \<longrightarrow> jweight v < jweight (JObject ms))"
proof (intro conjI impI)
  show "normalizePrefillEntries formPages (JString s) =
     (if s = [] then None
      else (case json_parse s of
              None \<Rightarrow> None
            | Some parsed \<Rightarrow> normalizePrefillEntries formPages parsed))"
    by (rule normalize_string)
next
  assume "json_parse s = Some p"
  then show "jweight p < jweight (JString s)" by (rule reparse_smaller)
next
  assume "map_of ms key = Some v"
  then show "jweight v < jweight (JObject ms)" by (rule nested_smaller)
qed

theorem normalize_reentry_terminates_witness:
  "json_parse (quoteJSONString encodedEntries) = Some (JString encodedEntries)
   \<and> jweight (JString encodedEntries) < jweight (JString (quoteJSONString encodedEntries))
   \<and> normalizePrefillEntries smallForm (JString (quoteJSONString encodedEntries)) =
       normalizePrefillEntries smallForm (JString encodedEntries)
   \<and> map_of [(''data'', JString encodedEntries)] ''data'' = Some (JString encodedEntries)
   \<and> jweight (JString encodedEntries) < jweight (JObject [(''data'', JString encodedEntries)])"
proof -
  have p: "json_parse (quoteJSONString encodedEntries) = Some (JString encodedEntries)"
    by code_simp
  have ne: "quoteJSONString encodedEntries \<noteq> []"
    by (simp add: quoteJSONString_def)
  have m: "map_of [(''data'', JString encodedEntries)] ''data'' = Some (JString encodedEntries)"
    by simp
  note t = normalize_reentry_terminates
             [of smallForm "quoteJSONString encodedEntries" "JString encodedEntries"
                 "[(''data'', JString encodedEntries)]" "''data''" "JString encodedEntries"]
  from t p have a: "jweight (JString encodedEntries) < jweight (JString (quoteJSONString encodedEntries))"
    by blast
  from t p ne have b: "normalizePrefillEntries smallForm (JString (quoteJSONString encodedEntries)) =
       normalizePrefillEntries smallForm (JString encodedEntries)"
    by simp
  from t m have c: "jweight (JString encodedEntries) < jweight (JObject [(''data'', JString encodedEntries)])"
    by blast
  from p a b m c show ?thesis by blast
qed

text \<open>
  The claim as it is written fails: the text of the entries, encoded as a JSON string
  three times over, is decoded by three re-entries and its entry is returned; with the
  cap of one re-entry that the claim states, nothing would be returned.
\<close>

theorem normalize_reentry_counterexample:
  "json_parse (quoteJSONString (quoteJSONString encodedEntries)) =
     Some (JString (quoteJSONString encodedEntries))
   \<and> json_parse (quoteJSONString encodedEntries) = Some (JString encodedEntries)
   \<and> normalizePrefillEntries smallForm
       (JString (quoteJSONString (quoteJSONString encodedEntries))) =
       Some [\<lparr>fieldId = ''step-0-x'', entryValue = ''v''\<rparr>]
   \<and> normalizePrefillEntriesCapped smallForm 1
       (JString (quoteJSONString (quoteJSONString encodedEntries))) = None
   \<and> normalizePrefillEntriesCapped smallForm 3
       (JString (quoteJSONString (quoteJSONString encodedEntries))) =
       Some [\<lparr>fieldId = ''step-0-x'', entryValue = ''v''\<rparr>]"
  by code_simp

section \<open>The keys of a parsed object are distinct\<close>

lemma updateKey_keyset: "fst ` set (updateKey k v ms) = insert k (fst ` set ms)"
proof (induction ms)
  case Nil
  then show ?case by simp
next
  case (Cons a ms)
  then show ?case by (cases a) (simp add: insert_commute)
qed

lemma updateKey_distinct: "distinct (map fst ms) \<Longrightarrow> distinct (map fst (updateKey k v ms))"
proof (induction ms)
  case Nil
  then show ?case by simp
next
  case (Cons a ms)
  then show ?case by (cases a) (auto simp: updateKey_keyset)
qed

lemma insertIndexKey_keyset: "fst ` set (insertIndexKey k v ms) = insert k (fst ` set ms)"
proof (induction ms)
  case Nil
  then show ?case by simp
next
  case (Cons a ms)
  then show ?case by (cases a) (simp add: insert_commute)
qed

lemma insertIndexKey_distinct:
  "k \<notin> fst ` set ms \<Longrightarrow> distinct (map fst ms) \<Longrightarrow> distinct (map fst (insertIndexKey k v ms))"
proof (induction ms)
  case Nil
  then show ?case by simp
next
  case (Cons a ms)
  then show ?case by (cases a) (auto simp: insertIndexKey_keyset)
qed

lemma js_put_distinct: "distinct (map fst ms) \<Longrightarrow> distinct (map fst (js_put k v ms))"
  by (simp add: js_put_def updateKey_distinct insertIndexKey_distinct)

lemma js_put_values:
  assumes "\<forall>kv \<in> set ms. P (snd kv)" and "P v"
  shows "\<forall>kv \<in> set (js_put k v ms). P (snd kv)"
proof
  fix kv
  assume "kv \<in> set (js_put k v ms)"
  then have "(fst kv, snd kv) \<in> set (js_put k v ms)" by simp
  from js_put_set [OF this] assms show "P (snd kv)" by auto
qed

lemma complete_distinct:
  "complete v st = Some s' \<Longrightarrow> distinctKeys v \<Longrightarrow> \<forall>f \<in> set st. frameDistinct f \<Longrightarrow> stateDistinct s'"
proof (induction v st rule: complete.induct)
  case (3 v ms k st)
  then show ?case
    using js_put_distinct [of ms k v] js_put_values [of ms distinctKeys v k] by auto
qed auto

lemma scalarOf_distinct: "scalarOf t = Some v \<Longrightarrow> distinctKeys v"
  by (cases t) auto

lemma openValue_distinct:
  assumes "openValue t st = Some s'" and "\<forall>f \<in> set st. frameDistinct f"
  shows "stateDistinct s'"
proof (cases "scalarOf t")
  case None
  with assms show ?thesis by (cases t) auto
next
  case (Some v)
  with assms(1) have "complete v st = Some s'" by (cases t) auto
  from complete_distinct [OF this scalarOf_distinct [OF Some] assms(2)] show ?thesis .
qed

lemma closeArray_distinct:
  "closeArray st = Some s' \<Longrightarrow> \<forall>f \<in> set st. frameDistinct f \<Longrightarrow> stateDistinct s'"
proof (induction st rule: closeArray.induct)
  case (1 els st)
  then show ?case using complete_distinct [of "JArray els" st s'] by simp
qed auto

lemma closeObject_distinct:
  "closeObject st = Some s' \<Longrightarrow> \<forall>f \<in> set st. frameDistinct f \<Longrightarrow> stateDistinct s'"
proof (induction st rule: closeObject.induct)
  case (1 ms st)
  then show ?case using complete_distinct [of "JObject ms" st s'] by simp
qed auto

lemma takeKey_distinct:
  "takeKey t st = Some s' \<Longrightarrow> \<forall>f \<in> set st. frameDistinct f \<Longrightarrow> stateDistinct s'"
  by (induction t st rule: takeKey.induct) auto

lemma afterComma_distinct:
  "afterComma st = Some s' \<Longrightarrow> \<forall>f \<in> set st. frameDistinct f \<Longrightarrow> stateDistinct s'"
  by (induction st rule: afterComma.induct) auto

lemma step_distinct: "step s t = Some s' \<Longrightarrow> stateDistinct s \<Longrightarrow> stateDistinct s'"
proof (induction s t rule: step.induct)
  case (1 v t)
  then show ?case by simp
next
  case (2 st t)
  then show ?case using openValue_distinct [of t st s'] by simp
next
  case (3 st t)
  then show ?case
    using openValue_distinct [of t st s'] closeArray_distinct [of st s']
    by (auto split: if_splits)
next
  case (4 st t)
  then show ?case
    using takeKey_distinct [of t st s'] closeObject_distinct [of st s']
    by (auto split: if_splits)
next
  case (5 st t)
  then show ?case using takeKey_distinct [of t st s'] by simp
next
  case (6 st t)
  then show ?case by (auto split: if_splits)
next
  case (7 st t)
  then show ?case
    using afterComma_distinct [of st s'] closeArray_distinct [of st s']
      closeObject_distinct [of st s']
    by (auto split: if_splits)
qed

lemma run_distinct: "run s ts = Some v \<Longrightarrow> stateDistinct s \<Longrightarrow> distinctKeys v"
proof (induction ts arbitrary: s)
  case Nil
  then show ?case by (cases s) auto
next
  case (Cons t ts)
  then obtain s' where st: "step s t = Some s'" and r: "run s' ts = Some v"
    by (auto split: option.splits)
  from Cons.IH [OF r step_distinct [OF st Cons.prems(2)]] show ?case .
qed

lemma json_parse_distinct: "json_parse text = Some v \<Longrightarrow> distinctKeys v"
proof -
  assume "json_parse text = Some v"
  then obtain ts where "run (Run [] ExpVal) ts = Some v"
    by (auto simp: json_parse_def split: option.splits)
  from run_distinct [OF this] show ?thesis by simp
qed

lemma parsed_answers_distinct:
  assumes "json_parse text = Some (JObject ms)" and "map_of ms k = Some (JObject entries)"
  shows "distinct (map fst entries)"
proof -
  from json_parse_distinct [OF assms(1)] have "\<forall>kv \<in> set ms. distinctKeys (snd kv)" by simp
  moreover from assms(2) have "(k, JObject entries) \<in> set ms" by (rule map_of_SomeD)
  ultimately have "distinctKeys (JObject entries)" by force
  then show ?thesis by simp
qed

section \<open>What the import keeps\<close>

lemma natToString_nonempty: "natToString n \<noteq> []"
  by (subst natToString.simps) simp

lemma digitChar_inj: "a < 10 \<Longrightarrow> b < 10 \<Longrightarrow> digitChar a = digitChar b \<Longrightarrow> a = b"
proof -
  assume a: "a < 10" and b: "b < 10" and e: "digitChar a = digitChar b"
  from e have "of_char (digitChar a) = (of_char (digitChar b) :: nat)" by simp
  with a b show "a = b" by (simp add: digitChar_def)
qed

lemma natToString_inj: "natToString a = natToString b \<Longrightarrow> a = b"
proof (induction a arbitrary: b rule: natToString.induct)
  case (1 n)
  show ?case
  proof (cases "n < 10")
    case True
    then have sn: "natToString n = [digitChar n]" by (subst natToString.simps) simp
    show ?thesis
    proof (cases "b < 10")
      case b: True
      then have "natToString b = [digitChar b]" by (subst natToString.simps) simp
      with sn "1.prems" have "digitChar n = digitChar b" by simp
      with True b show ?thesis by (rule digitChar_inj)
    next
      case False
      then have "natToString b = natToString (b div 10) @ [digitChar (b mod 10)]"
        by (subst natToString.simps) simp
      with sn "1.prems" natToString_nonempty [of "b div 10"] show ?thesis
        by (cases "natToString (b div 10)") simp_all
    qed
  next
    case False
    then have sn: "natToString n = natToString (n div 10) @ [digitChar (n mod 10)]"
      by (subst natToString.simps) simp
    show ?thesis
    proof (cases "b < 10")
      case True
      then have "natToString b = [digitChar b]" by (subst natToString.simps) simp
      with sn "1.prems" natToString_nonempty [of "n div 10"] show ?thesis
        by (cases "natToString (n div 10)") simp_all
    next
      case b: False
      then have "natToString b = natToString (b div 10) @ [digitChar (b mod 10)]"
        by (subst natToString.simps) simp
      with sn "1.prems" have e: "natToString (n div 10) = natToString (b div 10)"
        and d: "digitChar (n mod 10) = digitChar (b mod 10)" by simp_all
      from "1.IH" [OF False e] have q: "n div 10 = b div 10" .
      from d have r: "n mod 10 = b mod 10" by (intro digitChar_inj) simp_all
      from q r show ?thesis by (metis div_mult_mod_eq)
    qed
  qed
qed

lemma enumerate_keys_distinct:
  "distinct (map fst (map (\<lambda>(i, x). (natToString i, f i x)) (enumerate n xs)))"
proof -
  have "map fst (map (\<lambda>(i, x). (natToString i, f i x)) (enumerate n xs)) =
          map (natToString \<circ> fst) (enumerate n xs)"
    by (simp add: case_prod_unfold comp_def)
  also have "\<dots> = map natToString (map fst (enumerate n xs))"
    by (simp only: map_map)
  also have "\<dots> = map natToString [n..<n + length xs]"
    by (simp only: map_fst_enumerate)
  finally show ?thesis
    by (simp add: distinct_map inj_on_def natToString_inj)
qed

lemma objectEntries_distinct: "distinctKeys v \<Longrightarrow> distinct (map fst (objectEntries v))"
proof (cases v)
  case (JArray xs)
  from enumerate_keys_distinct [of "\<lambda>i x. x" 0 xs] JArray show ?thesis
    by (simp add: objectEntries_def)
next
  case (JString t)
  from enumerate_keys_distinct [of "\<lambda>i c. JString [c]" 0 t] JString show ?thesis
    by (simp add: objectEntries_def)
qed (simp_all add: objectEntries_def)

lemma answersEntries_distinct:
  assumes "json_parse text = Some parsed"
  shows "distinct (map fst (answersEntries parsed))"
proof (cases "js_get parsed ''answers''")
  case None
  then show ?thesis by (simp add: answersEntries_def propEntries_def)
next
  case (Some a)
  then obtain ms where ms: "parsed = JObject ms" and m: "map_of ms ''answers'' = Some a"
    by (cases parsed) simp_all
  from json_parse_distinct [OF assms] ms have "\<forall>kv \<in> set ms. distinctKeys (snd kv)" by simp
  moreover from m have "(''answers'', a) \<in> set ms" by (rule map_of_SomeD)
  ultimately have "distinctKeys a" by force
  with Some show ?thesis by (simp add: answersEntries_def propEntries_def objectEntries_distinct)
qed

lemma sanitize_fold:
  "distinct (map fst entries) \<Longrightarrow>
   map_of (foldl (\<lambda>acc kv. case snd kv of
                              JString s \<Rightarrow> if fst kv = ''__proto__'' then acc else js_put (fst kv) s acc
                            | _ \<Rightarrow> acc) acc entries) k =
     (case (if k = ''__proto__'' then None else stringEntry (map_of entries k)) of
        Some s \<Rightarrow> Some s
      | None \<Rightarrow> map_of acc k)"
proof (induction entries arbitrary: acc)
  case Nil
  then show ?case by (simp add: stringEntry_def)
next
  case (Cons e es)
  let ?f = "\<lambda>acc kv. case snd kv of
                       JString s \<Rightarrow> if fst kv = ''__proto__'' then acc else js_put (fst kv) s acc
                     | _ \<Rightarrow> acc"
  obtain k' v' where e: "e = (k', v')" by (cases e)
  define acc' where "acc' = ?f acc (k', v')"
  from Cons.prems e have d: "distinct (map fst es)" and nk: "k' \<notin> fst ` set es" by simp_all
  have fold: "foldl ?f acc (e # es) = foldl ?f acc' es"
    by (simp add: e acc'_def)
  have ih: "map_of (foldl ?f acc' es) k =
     (case (if k = ''__proto__'' then None else stringEntry (map_of es k)) of
        Some s \<Rightarrow> Some s
      | None \<Rightarrow> map_of acc' k)"
    by (rule Cons.IH [OF d])
  show ?case
  proof (cases "k = k'")
    case True
    with nk have none: "map_of es k = None" by (simp add: map_of_eq_None_iff)
    have "map_of acc' k =
            (case (if k = ''__proto__'' then None else stringEntry (Some v')) of
               Some s \<Rightarrow> Some s
             | None \<Rightarrow> map_of acc k)"
      using True by (cases v') (simp_all add: acc'_def stringEntry_def map_of_js_put)
    with ih none True show ?thesis by (simp only: fold) (simp add: e stringEntry_def)
  next
    case False
    then have "map_of acc' k = map_of acc k"
      by (cases v') (simp_all add: acc'_def map_of_js_put)
    with ih False show ?thesis by (simp only: fold) (simp add: e)
  qed
qed

lemma sanitizedAnswers_map:
  "distinct (map fst entries) \<Longrightarrow>
   map_of (sanitizedAnswers entries) k =
     (if k = ''__proto__'' then None else stringEntry (map_of entries k))"
  by (simp add: sanitizedAnswers_def sanitize_fold split: option.splits)

lemma clampStep_range:
  "0 \<le> clampStep formPages x \<and> clampStep formPages x \<le> of_int (summaryStepIndex formPages)"
  by (cases x) (simp_all add: clampStep_def summaryStepIndex_def)

lemma clampStep_importedStep:
  "clampStep formPages
     (Finite (case js_get parsed ''currentStep'' of
                Some (JNumber n) \<Rightarrow> clampStep formPages (numValue n)
              | _ \<Rightarrow> 0)) = importedStep formPages parsed"
proof (cases "js_get parsed ''currentStep''")
  case None
  then show ?thesis by (simp add: importedStep_def clampStep_def summaryStepIndex_def)
next
  case (Some c)
  show ?thesis
  proof (cases c)
    case (JNumber n)
    with Some show ?thesis
      by (cases "numValue n")
         (auto simp: importedStep_def clampStep_def summaryStepIndex_def max_def min_def)
  qed (simp_all add: Some importedStep_def clampStep_def summaryStepIndex_def)
qed

lemma importedStep_range:
  "0 \<le> importedStep formPages parsed \<and>
   importedStep formPages parsed \<le> of_int (summaryStepIndex formPages)"
  using clampStep_range [of formPages] clampStep_importedStep [of formPages parsed]
  by metis

lemma import_guard:
  "(\<not> truthy parsed \<or> \<not> isObjectType parsed \<or> \<not> truthyProp (js_get parsed ''answers'')) =
     (\<not> importAccepts parsed)"
proof (cases parsed)
  case (JObject ms)
  show ?thesis
  proof (cases "map_of ms ''answers''")
    case None
    with JObject show ?thesis by (simp add: importAccepts_def isObjectType_def truthyProp_def)
  next
    case (Some a)
    with JObject show ?thesis
      by (cases a) (simp_all add: importAccepts_def isObjectType_def truthyProp_def)
  qed
qed (simp_all add: importAccepts_def isObjectType_def truthyProp_def)

lemma parseImport_eq:
  "parseImport formPages st text =
     (case json_parse text of
        None \<Rightarrow> Inl ImportRejected
      | Some parsed \<Rightarrow>
          if importAccepts parsed
          then Inr (st\<lparr>answers := map_of (sanitizedAnswers (answersEntries parsed)),
                       currentStep := importedStep formPages parsed,
                       statusMessage := Some Success\<rparr>)
          else Inl ImportRejected)"
proof (cases "json_parse text")
  case None
  then show ?thesis by (simp add: parseImport_def)
next
  case (Some parsed)
  show ?thesis
  proof (cases "importAccepts parsed")
    case True
    with Some show ?thesis
      using import_guard [of parsed] clampStep_importedStep [of formPages parsed]
      by (simp add: parseImport_def Let_def answersEntries_def)
  next
    case False
    with Some show ?thesis
      using import_guard [of parsed] by (simp add: parseImport_def)
  qed
qed

lemma parseImport_answers:
  assumes p: "json_parse text = Some parsed" and r: "parseImport formPages st text = Inr st'"
  shows "answers st' k =
           (if k = ''__proto__'' then None else stringEntry (map_of (answersEntries parsed) k))"
proof -
  from p r have "answers st' = map_of (sanitizedAnswers (answersEntries parsed))"
    by (auto simp: parseImport_eq split: if_splits)
  with answersEntries_distinct [OF p] show ?thesis by (simp add: sanitizedAnswers_map)
qed

lemma parseImport_rejects:
  "json_parse text = Some parsed \<Longrightarrow> \<not> importAccepts parsed \<Longrightarrow>
     parseImport formPages st text = Inl ImportRejected"
  by (simp add: parseImport_eq)

text \<open>
  Every entry with a string value under a key other than \<^verbatim>\<open>__proto__\<close> is in the new
  Answer Map, whatever the form: no premise says that the key is a field of the form,
  and the new Answer Map is the same for every form.
\<close>

lemma parseImport_keeps_any_key:
  assumes p: "json_parse text = Some parsed" and a: "importAccepts parsed"
    and e: "(k, JString s) \<in> set (answersEntries parsed)" and k: "k \<noteq> ''__proto__''"
  shows "\<exists>st'. parseImport formPages st text = Inr st' \<and> answers st' k = Some s \<and>
           (\<exists>st2. parseImport otherPages st text = Inr st2 \<and> answers st2 = answers st')"
proof -
  from p a obtain st' where 1: "parseImport formPages st text = Inr st'"
    by (simp add: parseImport_eq)
  from p a obtain st2 where 2: "parseImport otherPages st text = Inr st2"
    by (simp add: parseImport_eq)
  from answersEntries_distinct [OF p] e have m: "map_of (answersEntries parsed) k = Some (JString s)"
    by simp
  from parseImport_answers [OF p 1] k m have "answers st' k = Some s"
    by (simp add: stringEntry_def)
  moreover have "answers st2 = answers st'"
    using parseImport_answers [OF p 1] parseImport_answers [OF p 2] by (intro ext) simp
  ultimately show ?thesis using 1 2 by blast
qed

section \<open>C9: the import of a file\<close>

text \<open>
  Claim C9, as the code has it.  For a text that parses, \<^verbatim>\<open>parseImport\<close> accepts the
  parsed value exactly when it is an object whose property \<open>answers\<close> is truthy, and
  fails otherwise: an object whose \<open>answers\<close> is \<^verbatim>\<open>null\<close>, \<^verbatim>\<open>false\<close>, zero or the empty string
  is refused.  The new Answer Map has no entry for a key under which \<open>answers\<close> has no
  string, it has every entry of \<open>answers\<close> with a string value and a key other than
  \<^verbatim>\<open>__proto__\<close>, and it has nothing else.  The current step becomes the imported
  \<open>currentStep\<close> clamped between zero and the index of the summary step when it is a
  number, and zero otherwise.
\<close>

theorem parseImport_behaviour:
  "json_parse text = Some parsed \<longrightarrow>
     ((\<exists>st'. parseImport formPages st text = Inr st') = importAccepts parsed)
   \<and> (\<not> importAccepts parsed \<longrightarrow> parseImport formPages st text = Inl ImportRejected)
   \<and> (\<forall>st'. parseImport formPages st text = Inr st' \<longrightarrow>
         (\<forall>k v. (k, v) \<in> set (answersEntries parsed) \<and> \<not> isStringValue v \<longrightarrow> answers st' k = None)
       \<and> (\<forall>k s. (k, JString s) \<in> set (answersEntries parsed) \<and> k \<noteq> ''__proto__'' \<longrightarrow>
              answers st' k = Some s)
       \<and> (\<forall>k s. answers st' k = Some s \<longrightarrow> (k, JString s) \<in> set (answersEntries parsed))
       \<and> currentStep st' = importedStep formPages parsed
       \<and> 0 \<le> currentStep st' \<and> currentStep st' \<le> of_int (summaryStepIndex formPages))"
proof (intro impI conjI allI)
  assume p: "json_parse text = Some parsed"
  then show "(\<exists>st'. parseImport formPages st text = Inr st') = importAccepts parsed"
    by (simp add: parseImport_eq)
next
  assume "json_parse text = Some parsed" and "\<not> importAccepts parsed"
  then show "parseImport formPages st text = Inl ImportRejected" by (rule parseImport_rejects)
next
  fix st' k v
  assume p: "json_parse text = Some parsed" and r: "parseImport formPages st text = Inr st'"
    and e: "(k, v) \<in> set (answersEntries parsed) \<and> \<not> isStringValue v"
  from answersEntries_distinct [OF p] e have "map_of (answersEntries parsed) k = Some v" by simp
  with e parseImport_answers [OF p r, of k] show "answers st' k = None"
    by (cases v) (simp_all add: stringEntry_def isStringValue_def)
next
  fix st' k s
  assume p: "json_parse text = Some parsed" and r: "parseImport formPages st text = Inr st'"
    and e: "(k, JString s) \<in> set (answersEntries parsed) \<and> k \<noteq> ''__proto__''"
  from answersEntries_distinct [OF p] e have "map_of (answersEntries parsed) k = Some (JString s)"
    by simp
  with e parseImport_answers [OF p r, of k] show "answers st' k = Some s"
    by (simp add: stringEntry_def)
next
  fix st' k s
  assume p: "json_parse text = Some parsed" and r: "parseImport formPages st text = Inr st'"
    and a: "answers st' k = Some s"
  with parseImport_answers [OF p r, of k]
  have "stringEntry (map_of (answersEntries parsed) k) = Some s" by (simp split: if_splits)
  then have "map_of (answersEntries parsed) k = Some (JString s)"
    by (auto simp: stringEntry_def split: option.splits json.splits)
  then show "(k, JString s) \<in> set (answersEntries parsed)" by (rule map_of_SomeD)
next
  fix st'
  assume p: "json_parse text = Some parsed" and r: "parseImport formPages st text = Inr st'"
  then have c: "currentStep st' = importedStep formPages parsed"
    by (auto simp: parseImport_eq split: if_splits)
  then show "currentStep st' = importedStep formPages parsed" .
  from c importedStep_range [of formPages parsed] show "0 \<le> currentStep st'" by simp
  from c importedStep_range [of formPages parsed]
  show "currentStep st' \<le> of_int (summaryStepIndex formPages)" by simp
qed

theorem parseImport_behaviour_witness:
  \<open>json_parse ''{"answers":{"step-0-x":"n","zzz":"kept","b":1},"currentStep":7}'' =
     Some (JObject [(''answers'', JObject [(''step-0-x'', JString ''n''), (''zzz'', JString ''kept''),
                                           (''b'', JNumber (Dec 1 0))]),
                    (''currentStep'', JNumber (Dec 7 0))]) \<and>
   (\<exists>st'. parseImport smallForm smallState
            ''{"answers":{"step-0-x":"n","zzz":"kept","b":1},"currentStep":7}'' = Inr st' \<and>
          answers st' ''step-0-x'' = Some ''n'' \<and> answers st' ''zzz'' = Some ''kept'' \<and>
          answers st' ''b'' = None \<and> answers st' ''step-1-y'' = None \<and> currentStep st' = 2) \<and>
   json_parse ''{"answers":["a",1]}'' =
     Some (JObject [(''answers'', JArray [JString ''a'', JNumber (Dec 1 0)])]) \<and>
   (\<exists>st'. parseImport smallForm smallState ''{"answers":["a",1]}'' = Inr st' \<and>
          answers st' ''0'' = Some ''a'' \<and> answers st' ''1'' = None \<and> currentStep st' = 0)\<close>
proof -
  let ?t = \<open>''{"answers":{"step-0-x":"n","zzz":"kept","b":1},"currentStep":7}''\<close>
  let ?entries = "[(''step-0-x'', JString ''n''), (''zzz'', JString ''kept''), (''b'', JNumber (Dec 1 0))]"
  let ?ms = "[(''answers'', JObject ?entries), (''currentStep'', JNumber (Dec 7 0))]"
  have p: "json_parse ?t = Some (JObject ?ms)" by code_simp
  have acc: "importAccepts (JObject ?ms)" by (simp add: importAccepts_def)
  have en: "answersEntries (JObject ?ms) = ?entries"
    by (simp add: answersEntries_def propEntries_def objectEntries_def)
  have seven: "numValue (Dec 7 0) = Finite 7" by code_simp
  have s: "importedStep smallForm (JObject ?ms) = 2"
    by (simp add: importedStep_def seven summaryStepIndex_def smallForm_def)
  note t = parseImport_behaviour [of ?t "JObject ?ms" smallForm smallState]
  from t p acc obtain st' where st': "parseImport smallForm smallState ?t = Inr st'" by blast
  from t p st' have keep:
    "\<forall>k s. (k, JString s) \<in> set (answersEntries (JObject ?ms)) \<and> k \<noteq> ''__proto__'' \<longrightarrow>
       answers st' k = Some s"
    by blast
  from t p st' have drop:
    "\<forall>k v. (k, v) \<in> set (answersEntries (JObject ?ms)) \<and> \<not> isStringValue v \<longrightarrow>
       answers st' k = None"
    by blast
  from t p st' have only:
    "\<forall>k s. answers st' k = Some s \<longrightarrow> (k, JString s) \<in> set (answersEntries (JObject ?ms))"
    by blast
  from t p st' have "currentStep st' = importedStep smallForm (JObject ?ms)" by blast
  with s have c: "currentStep st' = 2" by simp
  have "(''step-0-x'', JString ''n'') \<in> set (answersEntries (JObject ?ms)) \<and>
        ''step-0-x'' \<noteq> ''__proto__''"
    by (simp add: en)
  with keep have x: "answers st' ''step-0-x'' = Some ''n''" by blast
  have "(''zzz'', JString ''kept'') \<in> set (answersEntries (JObject ?ms)) \<and> ''zzz'' \<noteq> ''__proto__''"
    by (simp add: en)
  with keep have z: "answers st' ''zzz'' = Some ''kept''" by blast
  have "(''b'', JNumber (Dec 1 0)) \<in> set (answersEntries (JObject ?ms)) \<and>
        \<not> isStringValue (JNumber (Dec 1 0))"
    by (simp add: en isStringValue_def)
  with drop have b: "answers st' ''b'' = None" by blast
  have y: "answers st' ''step-1-y'' = None"
  proof (cases "answers st' ''step-1-y''")
    case None
    then show ?thesis .
  next
    case (Some v)
    with only have "(''step-1-y'', JString v) \<in> set (answersEntries (JObject ?ms))" by blast
    then show ?thesis by (simp add: en)
  qed
  let ?u = \<open>''{"answers":["a",1]}''\<close>
  let ?ns = "[(''answers'', JArray [JString ''a'', JNumber (Dec 1 0)])]"
  have p2: "json_parse ?u = Some (JObject ?ns)" by code_simp
  have acc2: "importAccepts (JObject ?ns)" by (simp add: importAccepts_def)
  have en2: "answersEntries (JObject ?ns) = [(''0'', JString ''a''), (''1'', JNumber (Dec 1 0))]"
    by code_simp
  have s2: "importedStep smallForm (JObject ?ns) = 0" by (simp add: importedStep_def)
  note t2 = parseImport_behaviour [of ?u "JObject ?ns" smallForm smallState]
  from t2 p2 acc2 obtain st2 where st2: "parseImport smallForm smallState ?u = Inr st2" by blast
  from t2 p2 st2 have keep2:
    "\<forall>k s. (k, JString s) \<in> set (answersEntries (JObject ?ns)) \<and> k \<noteq> ''__proto__'' \<longrightarrow>
       answers st2 k = Some s"
    by blast
  from t2 p2 st2 have drop2:
    "\<forall>k v. (k, v) \<in> set (answersEntries (JObject ?ns)) \<and> \<not> isStringValue v \<longrightarrow>
       answers st2 k = None"
    by blast
  from t2 p2 st2 have "currentStep st2 = importedStep smallForm (JObject ?ns)" by blast
  with s2 have c2: "currentStep st2 = 0" by simp
  have "(''0'', JString ''a'') \<in> set (answersEntries (JObject ?ns)) \<and> ''0'' \<noteq> ''__proto__''"
    by (simp add: en2)
  with keep2 have x2: "answers st2 ''0'' = Some ''a''" by blast
  have "(''1'', JNumber (Dec 1 0)) \<in> set (answersEntries (JObject ?ns)) \<and>
        \<not> isStringValue (JNumber (Dec 1 0))"
    by (simp add: en2 isStringValue_def)
  with drop2 have y2: "answers st2 ''1'' = None" by blast
  from p st' x z b y c have first:
    "\<exists>st'. parseImport smallForm smallState ?t = Inr st' \<and>
          answers st' ''step-0-x'' = Some ''n'' \<and> answers st' ''zzz'' = Some ''kept'' \<and>
          answers st' ''b'' = None \<and> answers st' ''step-1-y'' = None \<and> currentStep st' = 2"
    by blast
  from st2 x2 y2 c2 have second:
    "\<exists>st'. parseImport smallForm smallState ?u = Inr st' \<and>
          answers st' ''0'' = Some ''a'' \<and> answers st' ''1'' = None \<and> currentStep st' = 0"
    by blast
  from p first p2 second show ?thesis by (intro conjI)
qed

text \<open>
  The claim as it is written fails where it says that every object with a property
  \<open>answers\<close> is accepted: these four objects have one and are refused.
\<close>

theorem parseImport_falsy_answers_counterexample:
  \<open>parseImport smallForm smallState ''{"answers":null,"currentStep":1}'' = Inl ImportRejected \<and>
   parseImport smallForm smallState ''{"answers":"","currentStep":1}'' = Inl ImportRejected \<and>
   parseImport smallForm smallState ''{"answers":0,"currentStep":1}'' = Inl ImportRejected \<and>
   parseImport smallForm smallState ''{"answers":false,"currentStep":1}'' = Inl ImportRejected\<close>
proof -
  have 1: \<open>json_parse ''{"answers":null,"currentStep":1}'' =
     Some (JObject [(''answers'', JNull), (''currentStep'', JNumber (Dec 1 0))])\<close>
    by code_simp
  have 2: \<open>json_parse ''{"answers":"","currentStep":1}'' =
     Some (JObject [(''answers'', JString []), (''currentStep'', JNumber (Dec 1 0))])\<close>
    by code_simp
  have 3: \<open>json_parse ''{"answers":0,"currentStep":1}'' =
     Some (JObject [(''answers'', JNumber (Dec 0 0)), (''currentStep'', JNumber (Dec 1 0))])\<close>
    by code_simp
  have 4: \<open>json_parse ''{"answers":false,"currentStep":1}'' =
     Some (JObject [(''answers'', JBool False), (''currentStep'', JNumber (Dec 1 0))])\<close>
    by code_simp
  have zero: "numValue (Dec 0 0) = Finite 0" by code_simp
  show ?thesis
    by (simp add: parseImport_rejects [OF 1] parseImport_rejects [OF 2]
          parseImport_rejects [OF 3] parseImport_rejects [OF 4] importAccepts_def zero)
qed

section \<open>C10: the import does not look at the fields of the form\<close>

text \<open>
  Claim C10 says that every entry of \<open>answers\<close> with a string value is in the resulting
  Answer Map.  \<^verbatim>\<open>parseImport\<close> does not look at the fields of the form, and it keeps the key
  \<open>zzz\<close>, which is no field of the form; but its \<^verbatim>\<open>reduce\<close> assigns each entry to a fresh
  object literal, and the assignment to the key \<^verbatim>\<open>__proto__\<close> creates no property.  In this
  file the entry under \<^verbatim>\<open>__proto__\<close> has a string value, the import succeeds, and the new
  Answer Map has no entry for that key.
\<close>

theorem parseImport_proto_entry_dropped:
  \<open>json_parse ''{"answers":{"__proto__":"x","zzz":"kept"}}'' =
     Some (JObject [(''answers'', JObject [(''__proto__'', JString ''x''), (''zzz'', JString ''kept'')])]) \<and>
   ''zzz'' \<notin> validFieldIdSet smallForm \<and>
   (case parseImport smallForm smallState ''{"answers":{"__proto__":"x","zzz":"kept"}}'' of
      Inl e \<Rightarrow> False
    | Inr st' \<Rightarrow> answers st' ''__proto__'' = None \<and> answers st' ''zzz'' = Some ''kept'')\<close>
  by code_simp

theorem parseImport_proto_entry_dropped_witness:
  \<open>\<exists>st'. parseImport smallForm smallState ''{"answers":{"__proto__":"x","zzz":"kept"}}'' = Inr st' \<and>
     answers st' ''__proto__'' = None \<and> answers st' ''zzz'' = Some ''kept''\<close>
  using parseImport_proto_entry_dropped by (simp split: sum.splits)

end
